theory Spec2Isabelle
  imports Complex_Main "HOL-Library.Multiset"
begin

section \<open>Data model of \<^verbatim>\<open>app.py\<close>\<close>

text \<open>
  The analysis pipeline of \<^verbatim>\<open>app.py\<close> (the block under the Analyze button) reads a pandas
  frame \<^verbatim>\<open>df_input\<close>, evaluates every row with RDKit, splits the evaluated rows into the
  Pass rows and the others, sorts and ranks the Pass rows, concatenates both parts and hands
  the final frame to the table, the structure gallery, the two summary metrics and the CSV
  export.

  Floating-point numbers are modelled by the real numbers they denote; Python integers that
  count things are natural numbers or integers. Everything the script raises is caught by its
  \<^verbatim>\<open>except Exception\<close> handler and is a value of type \<open>exn\<close> here.
\<close>

datatype exn = ArgumentError | KeyError string | IndexError

text \<open>
  A cell of the \<^verbatim>\<open>SMILES\<close> column as \<^verbatim>\<open>read_csv\<close> delivers it: a string; the
  missing value of an empty or \<^verbatim>\<open>NA\<close> field; or a number, when every field of the column
  reads as one. The last two are not strings: RDKit's parser raises on them instead of
  returning \<^verbatim>\<open>None\<close>.
\<close>

datatype cell = Str string | NaN | Num real

record candidate =
  SMILES :: cell
  Docking_Score :: real

text \<open>The input frame: its column labels and its rows, in order.\<close>

record input_frame =
  columns :: "string list"
  rows :: "candidate list"

text \<open>
  The RDKit calls of the script are parameters of the model: \<^verbatim>\<open>Chem.MolFromSmiles\<close>
  (\<^verbatim>\<open>None\<close> for a string it cannot interpret), the four \<^verbatim>\<open>Descriptors\<close> functions and
  \<^verbatim>\<open>Draw.MolToImage\<close> at the fixed size.
\<close>

record ('m, 'i) toolkit =
  MolFromSmiles :: "string \<Rightarrow> 'm option"
  MolWt :: "'m \<Rightarrow> real"
  MolLogP :: "'m \<Rightarrow> real"
  NumHDonors :: "'m \<Rightarrow> int"
  NumHAcceptors :: "'m \<Rightarrow> int"
  MolToImage :: "'m \<Rightarrow> 'i"

text \<open>One dictionary appended to \<^verbatim>\<open>results\<close>: a row of \<^verbatim>\<open>df_results\<close>.\<close>

record result = candidate +
  Status :: string
  MW :: "real option"
  LogP :: "real option"
  HDonors :: "int option"
  HAcceptors :: "int option"
  Violations :: "nat option"
  ADMET_Predict :: "string option"

text \<open>
  The \<^verbatim>\<open>Final_Rank\<close> column holds a rank from \<^verbatim>\<open>range(1, len(df_pass) + 1)\<close> or the
  string \<^verbatim>\<open>'-'\<close>.
\<close>

datatype rank_cell = Rank nat | Dash

record final_row = result +
  Final_Rank :: rank_cell

definition with_rank :: "result \<Rightarrow> rank_cell \<Rightarrow> final_row" where
  "with_rank r k =
     \<lparr>SMILES = SMILES r, Docking_Score = Docking_Score r, Status = Status r, MW = MW r,
      LogP = LogP r, HDonors = HDonors r, HAcceptors = HAcceptors r,
      Violations = Violations r, ADMET_Predict = ADMET_Predict r, Final_Rank = k\<rparr>"

definition drop_rank :: "final_row \<Rightarrow> result" where
  "drop_rank f =
     \<lparr>SMILES = SMILES f, Docking_Score = Docking_Score f, Status = Status f, MW = MW f,
      LogP = LogP f, HDonors = HDonors f, HAcceptors = HAcceptors f,
      Violations = Violations f, ADMET_Predict = ADMET_Predict f\<rparr>"

definition input_of :: "'a candidate_scheme \<Rightarrow> candidate" where
  "input_of r = \<lparr>SMILES = SMILES r, Docking_Score = Docking_Score r\<rparr>"

section \<open>Per-row evaluation\<close>

text \<open>Python's \<^verbatim>\<open>round(x, 2)\<close>: to the nearest hundredth, ties to even.\<close>

definition round_half_even :: "real \<Rightarrow> int" where
  "round_half_even x =
     (let f = \<lfloor>x\<rfloor>; d = x - of_int f
      in if d < 1 / 2 then f else if 1 / 2 < d then f + 1 else if even f then f else f + 1)"

definition round2 :: "real \<Rightarrow> real" where
  "round2 x = of_int (round_half_even (x * 100)) / 100"

text \<open>\<^verbatim>\<open>sum([mw > 500, logp > 5, h_donors > 5, h_acceptors > 10])\<close>\<close>

definition violations :: "real \<Rightarrow> real \<Rightarrow> int \<Rightarrow> int \<Rightarrow> nat" where
  "violations mw logp h_donors h_acceptors =
     sum_list [of_bool (mw > 500), of_bool (logp > 5), of_bool (h_donors > 5),
               of_bool (h_acceptors > 10)]"

definition admet_prediction :: "real \<Rightarrow> int \<Rightarrow> string" where
  "admet_prediction logp h_donors =
     (if logp < 5 \<and> h_donors \<le> 5 then ''Good'' else ''Moderate'')"

definition status :: "nat \<Rightarrow> string" where
  "status v = (let is_drug_like = v \<le> 1
               in if is_drug_like then ''Pass'' else ''Fail (Lipinski Violation)'')"

definition invalid_result :: "'a candidate_scheme \<Rightarrow> result" where
  "invalid_result row =
     \<lparr>SMILES = SMILES row, Docking_Score = Docking_Score row, Status = ''Invalid SMILES'',
      MW = None, LogP = None, HDonors = None, HAcceptors = None,
      Violations = None, ADMET_Predict = None\<rparr>"

definition valid_result :: "('m, 'i) toolkit \<Rightarrow> 'a candidate_scheme \<Rightarrow> 'm \<Rightarrow> result" where
  "valid_result tk row mol =
     (let mw = MolWt tk mol;
          logp = MolLogP tk mol;
          h_donors = NumHDonors tk mol;
          h_acceptors = NumHAcceptors tk mol;
          v = violations mw logp h_donors h_acceptors
      in \<lparr>SMILES = SMILES row, Docking_Score = Docking_Score row, Status = status v,
          MW = Some (round2 mw), LogP = Some (round2 logp), HDonors = Some h_donors,
          HAcceptors = Some h_acceptors, Violations = Some v,
          ADMET_Predict = Some (admet_prediction logp h_donors)\<rparr>)"

text \<open>
  The body of the \<^verbatim>\<open>for\<close> loop: the dictionary appended to \<^verbatim>\<open>results\<close> and the entry
  appended to \<^verbatim>\<open>images\<close>, or the exception of the parser's call on a cell that is not a
  string.
\<close>

definition evaluate_row ::
  "('m, 'i) toolkit \<Rightarrow> candidate \<Rightarrow> exn + (result \<times> 'i option)" where
  "evaluate_row tk row =
     (case SMILES row of
        NaN \<Rightarrow> Inl ArgumentError
      | Num x \<Rightarrow> Inl ArgumentError
      | Str smiles \<Rightarrow>
          (case MolFromSmiles tk smiles of
             None \<Rightarrow> Inr (invalid_result row, None)
           | Some mol \<Rightarrow> Inr (valid_result tk row mol, Some (MolToImage tk mol))))"

text \<open>
  The loop over \<^verbatim>\<open>df_input.iterrows()\<close>, with the two lists it appends to as its state.
  An exception leaves the loop at once.
\<close>

fun iterrows ::
  "('m, 'i) toolkit \<Rightarrow> candidate list \<Rightarrow> result list \<times> 'i option list \<Rightarrow>
   exn + (result list \<times> 'i option list)" where
  "iterrows tk [] acc = Inr acc"
| "iterrows tk (row # df) (results, images) =
     (case evaluate_row tk row of
        Inl e \<Rightarrow> Inl e
      | Inr (r, img) \<Rightarrow> iterrows tk df (results @ [r], images @ [img]))"

section \<open>Ranking\<close>

text \<open>
  \<^verbatim>\<open>df_pass.sort_values(by='Docking_Score', ascending=True, inplace=True)\<close> sorts on one
  column with the default \<^verbatim>\<open>kind='quicksort'\<close>: pandas takes the rows in the order of the
  index array that numpy's \<^verbatim>\<open>argsort\<close> returns for the column. The argsort is a parameter
  of the model. Its documented contract is that the array it returns is a permutation of the
  positions that puts the keys in ascending order; only \<^verbatim>\<open>kind='stable'\<close> and
  \<^verbatim>\<open>kind='mergesort'\<close> promise more.
\<close>

definition argsort_contract :: "(real list \<Rightarrow> nat list) \<Rightarrow> bool" where
  "argsort_contract argsort \<longleftrightarrow>
     (\<forall>ks. mset (argsort ks) = mset [0..<length ks] \<and>
           sorted (map (\<lambda>i. ks ! i) (argsort ks)))"

definition sort_values :: "(real list \<Rightarrow> nat list) \<Rightarrow> result list \<Rightarrow> result list" where
  "sort_values argsort df = map (\<lambda>i. df ! i) (argsort (map Docking_Score df))"

text \<open>
  The argsort a stable kind computes. It meets the contract, and on keys that are pairwise
  distinct every argsort that meets the contract returns what it returns.
\<close>

definition stable_argsort :: "real list \<Rightarrow> nat list" where
  "stable_argsort ks = sort_key (\<lambda>i. ks ! i) [0..<length ks]"

text \<open>\<^verbatim>\<open>df_pass['Final_Rank'] = range(1, len(df_pass) + 1)\<close>\<close>

definition assign_ranks :: "result list \<Rightarrow> final_row list" where
  "assign_ranks df_pass =
     map (\<lambda>(r, k). with_rank r (Rank k)) (zip df_pass [1..<length df_pass + 1])"

text \<open>
  The ranking block: the two boolean selections, the sort, the two column assignments and
  the concatenation.
\<close>

definition ranking :: "(real list \<Rightarrow> nat list) \<Rightarrow> result list \<Rightarrow> final_row list" where
  "ranking argsort df_results =
     (let df_pass = filter (\<lambda>r. Status r = ''Pass'') df_results;
          df_fail = filter (\<lambda>r. Status r \<noteq> ''Pass'') df_results;
          df_pass = sort_values argsort df_pass;
          df_pass = assign_ranks df_pass;
          df_fail = map (\<lambda>r. with_rank r Dash) df_fail
      in df_pass @ df_fail)"

section \<open>The library's argsort\<close>

text \<open>
  What numpy's \<^verbatim>\<open>argsort\<close> of kind \<^verbatim>\<open>quicksort\<close> returns for keys that are equal
  depends on the code path the installation takes. Two of them are modelled here, to run the
  pipeline on them.
\<close>

subsection \<open>The generic quicksort\<close>

text \<open>
  The generic path is the function \<^verbatim>\<open>aquicksort_\<close> of numpy's \<^verbatim>\<open>quicksort.cpp\<close>: an
  introsort over the index array \<^verbatim>\<open>tosort\<close>. A range of more than sixteen entries is
  partitioned around the median of its first, middle and last key; the larger part is pushed
  on a stack and the loop goes on with the smaller one; a range of at most sixteen entries
  is sorted by insertion; a range popped from the stack after the depth limit is used up is
  sorted by heapsort. Pointers into the index array are positions here.
\<close>

definition SMALL_QUICKSORT :: nat where
  "SMALL_QUICKSORT = 15"

text \<open>The depth limit is twice the position of the highest set bit of the array length.\<close>

fun npy_get_msb :: "nat \<Rightarrow> nat" where
  "npy_get_msb unum = (if unum div 2 = 0 then 0 else 1 + npy_get_msb (unum div 2))"

definition INTP_SWAP :: "nat list \<Rightarrow> nat \<Rightarrow> nat \<Rightarrow> nat list" where
  "INTP_SWAP tosort a b = tosort[a := tosort ! b, b := tosort ! a]"

text \<open>
  The insertion sort at the end of the loop body: the entry at \<open>p_i\<close> moves down past every
  entry with a strictly greater key.
\<close>

fun insert_down :: "real list \<Rightarrow> nat list \<Rightarrow> nat \<Rightarrow> nat \<Rightarrow> nat \<Rightarrow> nat list" where
  "insert_down v tosort pl vi p_j =
     (if pl < p_j \<and> v ! vi < v ! (tosort ! (p_j - 1))
      then insert_down v (tosort[p_j := tosort ! (p_j - 1)]) pl vi (p_j - 1)
      else tosort[p_j := vi])"

definition insertion_sort :: "real list \<Rightarrow> nat list \<Rightarrow> nat \<Rightarrow> nat \<Rightarrow> nat list" where
  "insertion_sort v tosort pl pr =
     fold (\<lambda>p_i tosort. insert_down v tosort pl (tosort ! p_i) p_i) [pl + 1..<pr + 1] tosort"

text \<open>
  The two scans of the partition loop, \<^verbatim>\<open>do ++pi; while (v[*pi] < vp)\<close> and
  \<^verbatim>\<open>do --pj; while (vp < v[*pj])\<close>: each passes the run of entries it may skip. The
  pivot, parked at \<open>pr - 1\<close>, and the entry at \<open>pl\<close> stop them inside the range.
\<close>

definition scan_up :: "real list \<Rightarrow> real \<Rightarrow> nat list \<Rightarrow> nat \<Rightarrow> nat" where
  "scan_up v vp tosort p_i =
     p_i + 1 + length (takeWhile (\<lambda>i. v ! i < vp) (drop (p_i + 1) tosort))"

definition scan_down :: "real list \<Rightarrow> real \<Rightarrow> nat list \<Rightarrow> nat \<Rightarrow> nat" where
  "scan_down v vp tosort p_j =
     p_j - 1 - length (takeWhile (\<lambda>i. vp < v ! i) (rev (take p_j tosort)))"

function partition_loop ::
  "real list \<Rightarrow> real \<Rightarrow> nat list \<Rightarrow> nat \<Rightarrow> nat \<Rightarrow> nat list \<times> nat" where
  "partition_loop v vp tosort p_i p_j =
     (let p_i = scan_up v vp tosort p_i;
          p_j = scan_down v vp tosort p_j
      in if p_i \<ge> p_j then (tosort, p_i)
         else partition_loop v vp (INTP_SWAP tosort p_i p_j) p_i p_j)"
  by pat_completeness auto
termination
  by (relation "measure (\<lambda>(v, vp, tosort, p_i, p_j). p_j - p_i)")
    (auto simp add: scan_up_def scan_down_def)

text \<open>
  One pass of the \<^verbatim>\<open>while\<close> loop up to the push: the median of three, the pivot parked
  at \<open>pr - 1\<close>, the scans, and the pivot put in its place \<open>p_i\<close>.
\<close>

definition partition :: "real list \<Rightarrow> nat list \<Rightarrow> nat \<Rightarrow> nat \<Rightarrow> nat list \<times> nat" where
  "partition v tosort pl pr =
     (let pm = pl + (pr - pl) div 2;
          tosort = (if v ! (tosort ! pm) < v ! (tosort ! pl) then INTP_SWAP tosort pm pl else tosort);
          tosort = (if v ! (tosort ! pr) < v ! (tosort ! pm) then INTP_SWAP tosort pr pm else tosort);
          tosort = (if v ! (tosort ! pm) < v ! (tosort ! pl) then INTP_SWAP tosort pm pl else tosort);
          vp = v ! (tosort ! pm);
          tosort = INTP_SWAP tosort pm (pr - 1);
          (tosort, p_i) = partition_loop v vp tosort pl (pr - 1)
      in (INTP_SWAP tosort p_i (pr - 1), p_i))"

text \<open>
  \<^verbatim>\<open>aheapsort_\<close>, whose heap is the range read with indices from 1: entry \<open>k\<close> of the
  heap is the entry at position \<open>pl + k - 1\<close>.
\<close>

function sift_down ::
  "real list \<Rightarrow> nat list \<Rightarrow> nat \<Rightarrow> nat \<Rightarrow> nat \<Rightarrow> nat \<Rightarrow> nat \<Rightarrow> nat list" where
  "sift_down v tosort pl n tmp i j =
     (if 0 < j \<and> j \<le> n then
        (let j = (if j < n \<and> v ! (tosort ! (pl + j - 1)) < v ! (tosort ! (pl + j)) then j + 1 else j)
         in if v ! tmp < v ! (tosort ! (pl + j - 1))
            then sift_down v (tosort[pl + i - 1 := tosort ! (pl + j - 1)]) pl n tmp j (j + j)
            else tosort[pl + i - 1 := tmp])
      else tosort[pl + i - 1 := tmp])"
  by pat_completeness auto
termination
  by (relation "measure (\<lambda>(v, tosort, pl, n, tmp, i, j). n + 1 - j)") auto

definition aheapsort :: "real list \<Rightarrow> nat list \<Rightarrow> nat \<Rightarrow> nat \<Rightarrow> nat list" where
  "aheapsort v tosort pl n =
     (let tosort = fold (\<lambda>l tosort. sift_down v tosort pl n (tosort ! (pl + l - 1)) l (l + l))
                     (rev [1..<n div 2 + 1]) tosort
      in fold (\<lambda>n tosort.
                 let tmp = tosort ! (pl + n - 1);
                     tosort = tosort[pl + n - 1 := tosort ! pl]
                 in sift_down v tosort pl (n - 1) tmp 1 2)
           (rev [2..<n + 1]) tosort)"

text \<open>
  The loop with its stack, as a recursion over ranges: the range the loop goes on with is
  sorted first, the pushed one after it. Only a popped range meets the test of the depth
  limit. The pivot's place is always strictly inside the range; the test for it is what makes
  the recursion well-founded.
\<close>

function aquicksort_range ::
  "real list \<Rightarrow> nat list \<Rightarrow> nat \<Rightarrow> nat \<Rightarrow> int \<Rightarrow> bool \<Rightarrow> nat list" where
  "aquicksort_range v tosort pl pr cdepth popped =
     (if popped \<and> cdepth < 0 then aheapsort v tosort pl (pr - pl + 1)
      else if pr - pl > SMALL_QUICKSORT then
        (let (tosort, p_i) = partition v tosort pl pr
         in if pl < p_i \<and> p_i < pr then
              (if p_i - pl < pr - p_i
               then aquicksort_range v
                      (aquicksort_range v tosort pl (p_i - 1) (cdepth - 1) False)
                      (p_i + 1) pr (cdepth - 1) True
               else aquicksort_range v
                      (aquicksort_range v tosort (p_i + 1) pr (cdepth - 1) False)
                      pl (p_i - 1) (cdepth - 1) True)
            else tosort)
      else insertion_sort v tosort pl pr)"
  by pat_completeness auto
termination
  by (relation "measure (\<lambda>(v, tosort, pl, pr, cdepth, popped). pr - pl)") auto

text \<open>\<^verbatim>\<open>argsort\<close> of an array of keys: the index array starts as 0, 1, ..., num - 1.\<close>

definition aquicksort :: "real list \<Rightarrow> nat list" where
  "aquicksort v =
     (let num = length v
      in if num = 0 then []
         else aquicksort_range v [0..<num] 0 (num - 1) (2 * int (npy_get_msb num)) True)"

subsection \<open>The AVX-512 network for short arrays\<close>

text \<open>
  On a processor with AVX-512 numpy hands an array of 64-bit keys to the vectorised argsort
  of x86-simd-sort. An array of at most eight keys is loaded into one vector of eight lanes,
  the lanes beyond the array filled with infinity, and sorted together with its vector of
  indices by a bitonic network of six compare-and-exchange steps. Each step pairs every lane
  with a partner lane; a lane whose mask bit is clear keeps the smaller key of the two, a lane
  whose bit is set the larger; a lane keeps its own index when the key it ends up with equals
  the key it had, and takes the partner's index otherwise.
\<close>

datatype lane_key = Key real | Infinity

fun key_le :: "lane_key \<Rightarrow> lane_key \<Rightarrow> bool" where
  "key_le (Key x) (Key y) = (x \<le> y)"
| "key_le (Key x) Infinity = True"
| "key_le Infinity (Key y) = False"
| "key_le Infinity Infinity = True"

definition key_min :: "lane_key \<Rightarrow> lane_key \<Rightarrow> lane_key" where
  "key_min a b = (if key_le a b then a else b)"

definition key_max :: "lane_key \<Rightarrow> lane_key \<Rightarrow> lane_key" where
  "key_max a b = (if key_le a b then b else a)"

text \<open>The partner of every lane, lane 0 first, and the masks, bit 0 first.\<close>

definition NETWORK_64BIT_1 :: "nat list" where
  "NETWORK_64BIT_1 = [3, 2, 1, 0, 7, 6, 5, 4]"

definition NETWORK_64BIT_2 :: "nat list" where
  "NETWORK_64BIT_2 = [7, 6, 5, 4, 3, 2, 1, 0]"

definition NETWORK_64BIT_3 :: "nat list" where
  "NETWORK_64BIT_3 = [2, 3, 0, 1, 6, 7, 4, 5]"

definition SHUFFLE_1_1_1_1 :: "nat list" where
  "SHUFFLE_1_1_1_1 = [1, 0, 3, 2, 5, 4, 7, 6]"

definition mask_0xAA :: "bool list" where
  "mask_0xAA = [False, True, False, True, False, True, False, True]"

definition mask_0xCC :: "bool list" where
  "mask_0xCC = [False, False, True, True, False, False, True, True]"

definition mask_0xF0 :: "bool list" where
  "mask_0xF0 = [False, False, False, False, True, True, True, True]"

definition cmp_merge ::
  "nat list \<Rightarrow> bool list \<Rightarrow> (lane_key \<times> nat) list \<Rightarrow> (lane_key \<times> nat) list" where
  "cmp_merge perm opmask zmm =
     map (\<lambda>lane.
            let (in1, indexes1) = zmm ! lane;
                (in2, indexes2) = zmm ! (perm ! lane);
                tmp_keys = (if opmask ! lane then key_max in2 in1 else key_min in2 in1)
            in (tmp_keys, if tmp_keys = in1 then indexes1 else indexes2))
       [0, 1, 2, 3, 4, 5, 6, 7]"

definition sort_zmm_64bit :: "(lane_key \<times> nat) list \<Rightarrow> (lane_key \<times> nat) list" where
  "sort_zmm_64bit zmm =
     (let zmm = cmp_merge SHUFFLE_1_1_1_1 mask_0xAA zmm;
          zmm = cmp_merge NETWORK_64BIT_1 mask_0xCC zmm;
          zmm = cmp_merge SHUFFLE_1_1_1_1 mask_0xAA zmm;
          zmm = cmp_merge NETWORK_64BIT_2 mask_0xF0 zmm;
          zmm = cmp_merge NETWORK_64BIT_3 mask_0xCC zmm;
          zmm = cmp_merge SHUFFLE_1_1_1_1 mask_0xAA zmm
      in zmm)"

text \<open>The argsort of an array of at most eight keys.\<close>

definition argsort_8_64bit :: "real list \<Rightarrow> nat list" where
  "argsort_8_64bit arr =
     (let N = length arr;
          zmm = map (\<lambda>lane. if lane < N then (Key (arr ! lane), lane) else (Infinity, 0))
                  [0, 1, 2, 3, 4, 5, 6, 7]
      in map snd (take N (sort_zmm_64bit zmm)))"

section \<open>Presentation and export\<close>

text \<open>\<^verbatim>\<open>df_final.iloc[i]\<close> raises on a position outside the frame.\<close>

definition iloc :: "'a list \<Rightarrow> nat \<Rightarrow> exn + 'a" where
  "iloc df i = (if i < length df then Inr (df ! i) else Inl IndexError)"

text \<open>
  The gallery loop over \<^verbatim>\<open>enumerate(images)\<close>: every image that is not \<^verbatim>\<open>None\<close> is shown
  with a caption made of the \<^verbatim>\<open>SMILES\<close> and \<^verbatim>\<open>Docking_Score\<close> cells of row \<open>i\<close> of the
  final frame.
\<close>

fun gallery_loop ::
  "final_row list \<Rightarrow> (nat \<times> 'i option) list \<Rightarrow> exn + ('i \<times> cell \<times> real) list" where
  "gallery_loop df_final [] = Inr []"
| "gallery_loop df_final ((i, None) # rest) = gallery_loop df_final rest"
| "gallery_loop df_final ((i, Some mol_img) # rest) =
     (case iloc df_final i of
        Inl e \<Rightarrow> Inl e
      | Inr r \<Rightarrow>
          (case gallery_loop df_final rest of
             Inl e \<Rightarrow> Inl e
           | Inr shown \<Rightarrow> Inr ((mol_img, SMILES r, Docking_Score r) # shown)))"

definition gallery ::
  "final_row list \<Rightarrow> 'i option list \<Rightarrow> exn + ('i \<times> cell \<times> real) list" where
  "gallery df_final images = gallery_loop df_final (enumerate 0 images)"

text \<open>\<^verbatim>\<open>Series.str.contains\<close> with a pattern of plain letters: substring search.\<close>

fun str_contains :: "string \<Rightarrow> string \<Rightarrow> bool" where
  "str_contains pat [] = (pat = [])"
| "str_contains pat (c # s) = (take (length pat) (c # s) = pat \<or> str_contains pat s)"

definition pass_count :: "final_row list \<Rightarrow> nat" where
  "pass_count df_final = length (filter (\<lambda>r. Status r = ''Pass'') df_final)"

definition fail_count :: "final_row list \<Rightarrow> nat" where
  "fail_count df_final = length (filter (\<lambda>r. str_contains ''Fail'' (Status r)) df_final)"

text \<open>
  The exported table, before it is written out as text: the header and one list of fields
  per row. \<^verbatim>\<open>None\<close> is written as an empty field. A column of counts that holds
  \<^verbatim>\<open>None\<close> in some row is a float column of the frame (the \<^verbatim>\<open>None\<close> is stored as
  NaN there), so its counts are written as floats (\<^verbatim>\<open>2.0\<close>); a column of counts without
  \<^verbatim>\<open>None\<close> is written as integers.
\<close>

datatype field = Text string | Number real | Count int | Empty

definition csv_header :: "string list" where
  "csv_header = [''SMILES'', ''Docking_Score'', ''Status'', ''MW'', ''LogP'', ''HDonors'',
                 ''HAcceptors'', ''Violations'', ''ADMET_Predict'', ''Final_Rank'']"

definition count_field :: "bool \<Rightarrow> int option \<Rightarrow> field" where
  "count_field as_float c =
     (case c of
        None \<Rightarrow> Empty
      | Some n \<Rightarrow> if as_float then Number (of_int n) else Count n)"

definition csv_fields :: "final_row list \<Rightarrow> final_row \<Rightarrow> field list" where
  "csv_fields df_final r =
     [case SMILES r of Str s \<Rightarrow> Text s | NaN \<Rightarrow> Empty | Num x \<Rightarrow> Number x,
      Number (Docking_Score r),
      Text (Status r),
      case MW r of Some x \<Rightarrow> Number x | None \<Rightarrow> Empty,
      case LogP r of Some x \<Rightarrow> Number x | None \<Rightarrow> Empty,
      count_field (list_ex (\<lambda>x. HDonors x = None) df_final) (HDonors r),
      count_field (list_ex (\<lambda>x. HAcceptors x = None) df_final) (HAcceptors r),
      count_field (list_ex (\<lambda>x. Violations x = None) df_final) (map_option int (Violations r)),
      case ADMET_Predict r of Some s \<Rightarrow> Text s | None \<Rightarrow> Empty,
      case Final_Rank r of Rank k \<Rightarrow> Count (int k) | Dash \<Rightarrow> Text ''-'']"

definition to_csv :: "final_row list \<Rightarrow> string list \<times> field list list" where
  "to_csv df_final = (csv_header, map (csv_fields df_final) df_final)"

section \<open>The pipeline\<close>

text \<open>What a successful run renders.\<close>

record 'i page =
  table :: "final_row list"
  shown_images :: "('i \<times> cell \<times> real) list"
  passed :: nat
  failed :: nat
  csv :: "string list \<times> field list list"

text \<open>
  The four ways a run ends: the hint to load data (\<^verbatim>\<open>st.info\<close>), the message about the
  missing columns, the message of the exception handler, and the results.
\<close>

datatype 'i outcome = Info | Columns_Missing | Processing_Error exn | Success "'i page"

text \<open>
  \<^verbatim>\<open>pd.DataFrame(results)\<close> of an empty list has no columns, so the selection
  \<^verbatim>\<open>df_results['Status']\<close> raises \<^verbatim>\<open>KeyError\<close> when the input has no rows.
\<close>

definition analyze ::
  "('m, 'i) toolkit \<Rightarrow> (real list \<Rightarrow> nat list) \<Rightarrow> bool \<Rightarrow> input_frame option \<Rightarrow> 'i outcome" where
  "analyze tk argsort button df_input =
     (case df_input of
        None \<Rightarrow> Info
      | Some df \<Rightarrow>
          if \<not> button then Info
          else if ''SMILES'' \<notin> set (columns df) \<or> ''Docking_Score'' \<notin> set (columns df)
          then Columns_Missing
          else
            (case iterrows tk (rows df) ([], []) of
               Inl e \<Rightarrow> Processing_Error e
             | Inr (results, images) \<Rightarrow>
                 if results = [] then Processing_Error (KeyError ''Status'')
                 else
                   (let df_final = ranking argsort results
                    in case gallery df_final images of
                         Inl e \<Rightarrow> Processing_Error e
                       | Inr shown \<Rightarrow>
                           Success \<lparr>table = df_final, shown_images = shown,
                                    passed = pass_count df_final,
                                    failed = fail_count df_final,
                                    csv = to_csv df_final\<rparr>)))"

text \<open>The evaluated records a run produces: the rows of its table, none without one.\<close>

definition evaluated_records :: "'i outcome \<Rightarrow> final_row list" where
  "evaluated_records out = (case out of Success p \<Rightarrow> table p | _ \<Rightarrow> [])"

section \<open>The threshold rules as the specification words them\<close>

text \<open>
  The four independent threshold rules: weight above 500, lipophilicity above 5, donor count
  above 5, acceptor count above 10. A record's violation count is the number of rules it
  breaches.
\<close>

datatype rule = Weight | Lipophilicity | Donors | Acceptors

fun breached :: "real \<Rightarrow> real \<Rightarrow> int \<Rightarrow> int \<Rightarrow> rule \<Rightarrow> bool" where
  "breached mw logp donors acceptors Weight = (mw > 500)"
| "breached mw logp donors acceptors Lipophilicity = (logp > 5)"
| "breached mw logp donors acceptors Donors = (donors > 5)"
| "breached mw logp donors acceptors Acceptors = (acceptors > 10)"

definition breaches :: "('m, 'i) toolkit \<Rightarrow> 'm \<Rightarrow> rule set" where
  "breaches tk mol =
     {q. breached (MolWt tk mol) (MolLogP tk mol) (NumHDonors tk mol) (NumHAcceptors tk mol) q}"

section \<open>A toolkit for the examples\<close>

text \<open>
  A stand-in for RDKit on which the examples below run: a molecule is the tuple of its four
  descriptor values, its image is the molecule itself, and the parser interprets four
  strings.
\<close>

definition example_toolkit :: "(real \<times> real \<times> int \<times> int, real \<times> real \<times> int \<times> int) toolkit" where
  "example_toolkit =
     \<lparr>MolFromSmiles = (\<lambda>s. if s = ''A'' then Some (180, 12 / 10, 1, 4)
                           else if s = ''B'' then Some (250, 55 / 10, 2, 3)
                           else if s = ''F'' then Some (600, 3, 2, 12)
                           else if s = ''G'' then Some (620, 61 / 10, 7, 11)
                           else None),
      MolWt = (\<lambda>(mw, logp, donors, acceptors). mw),
      MolLogP = (\<lambda>(mw, logp, donors, acceptors). logp),
      NumHDonors = (\<lambda>(mw, logp, donors, acceptors). donors),
      NumHAcceptors = (\<lambda>(mw, logp, donors, acceptors). acceptors),
      MolToImage = (\<lambda>mol. mol)\<rparr>"

definition example_frame :: "(string \<times> real) list \<Rightarrow> input_frame" where
  "example_frame xs =
     \<lparr>columns = [''SMILES'', ''Docking_Score''],
      rows = map (\<lambda>(s, d). \<lparr>SMILES = Str s, Docking_Score = d\<rparr>) xs\<rparr>"

text \<open>
  A second stand-in, for examples that need many molecules that pass: it interprets the
  SMILES strings of the unbranched alkanes, \<open>C\<close>, \<open>CC\<close>, \<open>CCC\<close> and so on. The
  molecule is its number of carbon atoms, and so is its image.
\<close>

definition alkane_toolkit :: "(nat, nat) toolkit" where
  "alkane_toolkit =
     \<lparr>MolFromSmiles = (\<lambda>s. if s \<noteq> [] \<and> list_all (\<lambda>c. c = CHR ''C'') s
                           then Some (length s) else None),
      MolWt = (\<lambda>n. 14 * real n + 2),
      MolLogP = (\<lambda>n. real n / 2),
      NumHDonors = (\<lambda>n. 0),
      NumHAcceptors = (\<lambda>n. 0),
      MolToImage = (\<lambda>n. n)\<rparr>"

text \<open>Seventeen alkanes, from one to seventeen carbon atoms, all with the docking score -7.\<close>

definition tied_alkanes :: "(string \<times> real) list" where
  "tied_alkanes =
     [(''C'', - 7),
      (''CC'', - 7),
      (''CCC'', - 7),
      (''CCCC'', - 7),
      (''CCCCC'', - 7),
      (''CCCCCC'', - 7),
      (''CCCCCCC'', - 7),
      (''CCCCCCCC'', - 7),
      (''CCCCCCCCC'', - 7),
      (''CCCCCCCCCC'', - 7),
      (''CCCCCCCCCCC'', - 7),
      (''CCCCCCCCCCCC'', - 7),
      (''CCCCCCCCCCCCC'', - 7),
      (''CCCCCCCCCCCCCC'', - 7),
      (''CCCCCCCCCCCCCCC'', - 7),
      (''CCCCCCCCCCCCCCCC'', - 7),
      (''CCCCCCCCCCCCCCCCC'', - 7)]"

text \<open>The number of carbon atoms of an alkane's SMILES cell.\<close>

definition carbons :: "cell \<Rightarrow> nat" where
  "carbons c = (case c of Str s \<Rightarrow> length s | _ \<Rightarrow> 0)"

section \<open>Basic facts\<close>

lemma drop_rank_with_rank: "drop_rank (with_rank r k) = r"
  by (simp add: drop_rank_def with_rank_def)

lemma breaches_eq:
  "breaches tk mol =
     (if MolWt tk mol > 500 then {Weight} else {}) \<union>
     (if MolLogP tk mol > 5 then {Lipophilicity} else {}) \<union>
     (if NumHDonors tk mol > 5 then {Donors} else {}) \<union>
     (if NumHAcceptors tk mol > 10 then {Acceptors} else {})"
  unfolding breaches_def
  apply (rule set_eqI)
  subgoal for q by (cases q) auto
  done

lemma violations_card:
  "violations (MolWt tk mol) (MolLogP tk mol) (NumHDonors tk mol) (NumHAcceptors tk mol) =
   card (breaches tk mol)"
  by (simp add: breaches_eq violations_def)

lemma card_breaches_le: "card (breaches tk mol) \<le> 4"
  by (simp add: breaches_eq)

lemma evaluate_row_valid:
  "SMILES row = Str smiles \<Longrightarrow> MolFromSmiles tk smiles = Some mol \<Longrightarrow>
   evaluate_row tk row = Inr (valid_result tk row mol, Some (MolToImage tk mol))"
  by (simp add: evaluate_row_def)

lemma evaluate_row_invalid:
  "SMILES row = Str smiles \<Longrightarrow> MolFromSmiles tk smiles = None \<Longrightarrow>
   evaluate_row tk row = Inr (invalid_result row, None)"
  by (simp add: evaluate_row_def)

section \<open>Lipinski violations and classification\<close>

text \<open>
  Claim C2. For every row whose SMILES string the parser interprets, the \<^verbatim>\<open>Violations\<close>
  cell is the number of threshold rules the molecule's descriptors breach (weight above 500,
  logP above 5, donors above 5, acceptors above 10), a number from 0 to 4, and the
  \<^verbatim>\<open>Status\<close> is \<^verbatim>\<open>Pass\<close> exactly when that number is at most 1 and the Fail label
  otherwise.
\<close>

theorem C2_violation_count:
  assumes "SMILES row = Str smiles" and "MolFromSmiles tk smiles = Some mol"
    and "evaluate_row tk row = Inr (r, img)"
  shows "Violations r = Some (card (breaches tk mol)) \<and>
         card (breaches tk mol) \<le> 4 \<and>
         (Status r = ''Pass'' \<longleftrightarrow> card (breaches tk mol) \<le> 1) \<and>
         (Status r = ''Fail (Lipinski Violation)'' \<longleftrightarrow> \<not> card (breaches tk mol) \<le> 1)"
proof -
  have r: "r = valid_result tk row mol"
    using assms by (simp add: evaluate_row_valid)
  have v: "Violations r = Some (card (breaches tk mol))"
    by (simp add: r valid_result_def Let_def violations_card)
  have s: "Status r = status (card (breaches tk mol))"
    by (simp add: r valid_result_def Let_def violations_card)
  show ?thesis
    using v card_breaches_le [of tk mol] by (simp add: s status_def)
qed

text \<open>
  The example molecule \<open>F\<close> breaches the weight rule and the acceptor rule: two violations
  and the Fail label.
\<close>

theorem C2_violation_count_witness:
  "SMILES \<lparr>SMILES = Str ''F'', Docking_Score = - 5\<rparr> = Str ''F'' \<and>
   MolFromSmiles example_toolkit ''F'' = Some (600, 3, 2, 12) \<and>
   evaluate_row example_toolkit \<lparr>SMILES = Str ''F'', Docking_Score = - 5\<rparr> =
     Inr (\<lparr>SMILES = Str ''F'', Docking_Score = - 5, Status = ''Fail (Lipinski Violation)'',
           MW = Some 600, LogP = Some 3, HDonors = Some 2, HAcceptors = Some 12,
           Violations = Some 2, ADMET_Predict = Some ''Good''\<rparr>, Some (600, 3, 2, 12)) \<and>
   card (breaches example_toolkit (600, 3, 2, 12)) = 2"
proof -
  let ?row = "\<lparr>SMILES = Str ''F'', Docking_Score = - 5\<rparr>"
  have p: "MolFromSmiles example_toolkit ''F'' = Some (600, 3, 2, 12)"
    by (simp add: example_toolkit_def)
  have e: "evaluate_row example_toolkit ?row =
     Inr (\<lparr>SMILES = Str ''F'', Docking_Score = - 5, Status = ''Fail (Lipinski Violation)'',
           MW = Some 600, LogP = Some 3, HDonors = Some 2, HAcceptors = Some 12,
           Violations = Some 2, ADMET_Predict = Some ''Good''\<rparr>, Some (600, 3, 2, 12))"
    by (simp add: evaluate_row_def example_toolkit_def valid_result_def Let_def violations_def
        status_def admet_prediction_def round2_def round_half_even_def)
  from C2_violation_count [OF _ p e] show ?thesis
    using e p by simp
qed

section \<open>The ADMET label\<close>

text \<open>
  Claim C6. For every row whose SMILES string the parser interprets, the \<^verbatim>\<open>ADMET_Predict\<close>
  cell is \<^verbatim>\<open>Good\<close> exactly when logP is below 5 and the donor count is at most 5, and
  \<^verbatim>\<open>Moderate\<close> otherwise. The label is a function of these two descriptors alone: the
  \<^verbatim>\<open>Status\<close> does not enter it.
\<close>

theorem C6_admet_label:
  assumes "SMILES row = Str smiles" and "MolFromSmiles tk smiles = Some mol"
    and "evaluate_row tk row = Inr (r, img)"
  shows "ADMET_Predict r = Some (admet_prediction (MolLogP tk mol) (NumHDonors tk mol)) \<and>
         (ADMET_Predict r = Some ''Good'' \<longleftrightarrow> MolLogP tk mol < 5 \<and> NumHDonors tk mol \<le> 5) \<and>
         (ADMET_Predict r = Some ''Moderate'' \<longleftrightarrow>
            \<not> (MolLogP tk mol < 5 \<and> NumHDonors tk mol \<le> 5))"
proof -
  have r: "r = valid_result tk row mol"
    using assms by (simp add: evaluate_row_valid)
  have a: "ADMET_Predict r = Some (admet_prediction (MolLogP tk mol) (NumHDonors tk mol))"
    by (simp add: r valid_result_def Let_def)
  show ?thesis
    unfolding a by (simp add: admet_prediction_def)
qed

text \<open>
  All four combinations of status and label occur: \<open>A\<close> passes and is Good, \<open>B\<close> passes
  and is Moderate, \<open>F\<close> fails and is Good, \<open>G\<close> fails and is Moderate.
\<close>

theorem C6_admet_label_witness:
  "MolFromSmiles example_toolkit ''F'' = Some (600, 3, 2, 12) \<and>
   map (\<lambda>s. case evaluate_row example_toolkit \<lparr>SMILES = Str s, Docking_Score = 0\<rparr> of
              Inr (r, img) \<Rightarrow> (Status r, ADMET_Predict r) | Inl e \<Rightarrow> ([], None))
       [''A'', ''B'', ''F'', ''G''] =
     [(''Pass'', Some ''Good''), (''Pass'', Some ''Moderate''),
      (''Fail (Lipinski Violation)'', Some ''Good''),
      (''Fail (Lipinski Violation)'', Some ''Moderate'')] \<and>
   MolLogP example_toolkit (600, 3, 2, 12) < 5 \<and> NumHDonors example_toolkit (600, 3, 2, 12) \<le> 5"
proof -
  let ?row = "\<lparr>SMILES = Str ''F'', Docking_Score = 0\<rparr>"
  have p: "MolFromSmiles example_toolkit ''F'' = Some (600, 3, 2, 12)"
    by (simp add: example_toolkit_def)
  have e: "evaluate_row example_toolkit ?row =
     Inr (valid_result example_toolkit ?row (600, 3, 2, 12),
          Some (MolToImage example_toolkit (600, 3, 2, 12)))"
    by (rule evaluate_row_valid [OF _ p]) simp
  have ev: "map (\<lambda>s. case evaluate_row example_toolkit \<lparr>SMILES = Str s, Docking_Score = 0\<rparr> of
              Inr (r, img) \<Rightarrow> (Status r, ADMET_Predict r) | Inl e \<Rightarrow> ([], None))
       [''A'', ''B'', ''F'', ''G''] =
     [(''Pass'', Some ''Good''), (''Pass'', Some ''Moderate''),
      (''Fail (Lipinski Violation)'', Some ''Good''),
      (''Fail (Lipinski Violation)'', Some ''Moderate'')]"
    by (simp add: evaluate_row_def example_toolkit_def valid_result_def Let_def violations_def
        status_def admet_prediction_def)
  from C6_admet_label [OF _ p e] show ?thesis
    using p ev by (simp add: example_toolkit_def)
qed

section \<open>The column check\<close>

text \<open>
  Claim C5. For every input frame whose column labels lack \<^verbatim>\<open>SMILES\<close> or
  \<^verbatim>\<open>Docking_Score\<close> (the exact strings), a run reports the missing columns and produces no
  evaluated record. The check comes before the loop over the rows: the outcome is the same
  whatever the rows hold and whatever the toolkit and the sort would do with them.
\<close>

theorem C5_columns_missing:
  assumes "''SMILES'' \<notin> set (columns df) \<or> ''Docking_Score'' \<notin> set (columns df)"
  shows "analyze tk argsort True (Some df) = Columns_Missing \<and>
         evaluated_records (analyze tk argsort True (Some df)) = []"
  using assms by (auto simp add: analyze_def evaluated_records_def)

text \<open>
  A frame with the label \<open>smiles\<close> in lower case is refused, although its only row has a
  missing SMILES cell, on which the loop would raise.
\<close>

theorem C5_columns_missing_witness:
  "(''SMILES'' \<notin> set (columns \<lparr>columns = [''smiles'', ''Docking_Score''],
                                 rows = [\<lparr>SMILES = NaN, Docking_Score = - 1\<rparr>]\<rparr>)) \<and>
   analyze example_toolkit stable_argsort True
     (Some \<lparr>columns = [''smiles'', ''Docking_Score''],
            rows = [\<lparr>SMILES = NaN, Docking_Score = - 1\<rparr>]\<rparr>) = Columns_Missing \<and>
   analyze example_toolkit stable_argsort True
     (Some \<lparr>columns = [''SMILES'', ''Docking_Score''],
            rows = [\<lparr>SMILES = NaN, Docking_Score = - 1\<rparr>]\<rparr>) = Processing_Error ArgumentError"
proof -
  let ?df = "\<lparr>columns = [''smiles'', ''Docking_Score''],
              rows = [\<lparr>SMILES = NaN, Docking_Score = - 1\<rparr>]\<rparr>"
  have h: "''SMILES'' \<notin> set (columns ?df)"
    by simp
  have e: "analyze example_toolkit stable_argsort True
     (Some \<lparr>columns = [''SMILES'', ''Docking_Score''],
            rows = [\<lparr>SMILES = NaN, Docking_Score = - 1\<rparr>]\<rparr>) = Processing_Error ArgumentError"
    by (simp add: analyze_def evaluate_row_def)
  from C5_columns_missing [of ?df example_toolkit stable_argsort] h e
  show ?thesis by simp
qed

section \<open>Sorting and ranking\<close>

lemma argsort_indices:
  assumes "argsort_contract argsort"
  shows "set (argsort ks) = {0..<length ks}"
proof -
  have "mset (argsort ks) = mset [0..<length ks]"
    using assms by (simp add: argsort_contract_def)
  then have "set (argsort ks) = set [0..<length ks]"
    by (rule mset_eq_setD)
  then show ?thesis by simp
qed

lemma mset_sort_values:
  assumes "argsort_contract argsort"
  shows "mset (sort_values argsort df) = mset df"
proof -
  let ?p = "argsort (map Docking_Score df)"
  have "mset ?p = mset [0..<length df]"
    using assms by (simp add: argsort_contract_def)
  then have "mset (map (\<lambda>i. df ! i) ?p) = mset (map (\<lambda>i. df ! i) [0..<length df])"
    by (metis mset_map)
  then show ?thesis
    by (simp add: sort_values_def map_nth)
qed

lemma sorted_sort_values:
  assumes "argsort_contract argsort"
  shows "sorted (map Docking_Score (sort_values argsort df))"
proof -
  let ?ks = "map Docking_Score df"
  let ?p = "argsort ?ks"
  have s: "sorted (map (\<lambda>i. ?ks ! i) ?p)"
    using assms by (simp add: argsort_contract_def)
  have "map (\<lambda>i. ?ks ! i) ?p = map Docking_Score (sort_values argsort df)"
    using argsort_indices [OF assms, of ?ks] by (simp add: sort_values_def)
  with s show ?thesis by simp
qed

lemma length_sort_values:
  "argsort_contract argsort \<Longrightarrow> length (sort_values argsort df) = length df"
  by (metis mset_sort_values size_mset)

lemma set_sort_values:
  "argsort_contract argsort \<Longrightarrow> set (sort_values argsort df) = set df"
  by (metis mset_sort_values set_mset_mset)

lemma stable_argsort_contract: "argsort_contract stable_argsort"
  by (simp add: argsort_contract_def stable_argsort_def)

lemma length_assign_ranks: "length (assign_ranks df) = length df"
  by (simp add: assign_ranks_def del: upt_Suc)

lemma drop_rank_assign_ranks: "map drop_rank (assign_ranks df) = df"
proof -
  have "map drop_rank (assign_ranks df) = map fst (zip df [1..<length df + 1])"
    by (simp add: assign_ranks_def drop_rank_with_rank split_def)
  then show ?thesis by (simp add: map_fst_zip del: upt_Suc)
qed

lemma Final_Rank_assign_ranks:
  "map Final_Rank (assign_ranks df) = map Rank [1..<length df + 1]"
proof -
  have "map Final_Rank (assign_ranks df) = map Rank (map snd (zip df [1..<length df + 1]))"
    by (simp add: assign_ranks_def with_rank_def split_def)
  then show ?thesis by (simp add: map_snd_zip del: upt_Suc)
qed

lemma with_rank_simps [simp]:
  "Status (with_rank r k) = Status r"
  "SMILES (with_rank r k) = SMILES r"
  "Docking_Score (with_rank r k) = Docking_Score r"
  "Final_Rank (with_rank r k) = k"
  by (simp_all add: with_rank_def)

lemma drop_rank_simps [simp]:
  "Status (drop_rank f) = Status f"
  "SMILES (drop_rank f) = SMILES f"
  "Docking_Score (drop_rank f) = Docking_Score f"
  by (simp_all add: drop_rank_def)

lemma Status_assign_ranks: "map Status (assign_ranks df) = map Status df"
  using drop_rank_assign_ranks [of df, THEN arg_cong, of "map Status"]
  by (simp add: comp_def)


lemma ranking_eq:
  "ranking argsort df_results =
     assign_ranks (sort_values argsort (filter (\<lambda>r. Status r = ''Pass'') df_results)) @
     map (\<lambda>r. with_rank r Dash) (filter (\<lambda>r. Status r \<noteq> ''Pass'') df_results)"
  by (simp add: ranking_def)

lemma Status_ranked_pass:
  assumes "argsort_contract argsort"
    and "x \<in> set (assign_ranks (sort_values argsort (filter (\<lambda>r. Status r = ''Pass'') df)))"
  shows "Status x = ''Pass''"
proof -
  let ?s = "sort_values argsort (filter (\<lambda>r. Status r = ''Pass'') df)"
  have "Status x \<in> set (map Status (assign_ranks ?s))"
    using assms(2) by simp
  then have "Status x \<in> Status ` set ?s"
    by (simp add: Status_assign_ranks)
  then show ?thesis
    by (auto simp add: set_sort_values [OF assms(1)])
qed

lemma filter_pass_ranking:
  assumes "argsort_contract argsort"
  shows "filter (\<lambda>r. Status r = ''Pass'') (ranking argsort df) =
         assign_ranks (sort_values argsort (filter (\<lambda>r. Status r = ''Pass'') df))"
proof -
  let ?a = "assign_ranks (sort_values argsort (filter (\<lambda>r. Status r = ''Pass'') df))"
  have a: "filter (\<lambda>r. Status r = ''Pass'') ?a = ?a"
    using Status_ranked_pass [OF assms] by (simp add: filter_id_conv)
  have b: "filter (\<lambda>r. Status r = ''Pass'')
             (map (\<lambda>r. with_rank r Dash) (filter (\<lambda>r. Status r \<noteq> ''Pass'') df)) = []"
    by (simp add: filter_empty_conv)
  show ?thesis
    unfolding ranking_eq filter_append a b by simp
qed

lemma filter_fail_ranking:
  assumes "argsort_contract argsort"
  shows "filter (\<lambda>r. Status r \<noteq> ''Pass'') (ranking argsort df) =
         map (\<lambda>r. with_rank r Dash) (filter (\<lambda>r. Status r \<noteq> ''Pass'') df)"
proof -
  let ?a = "assign_ranks (sort_values argsort (filter (\<lambda>r. Status r = ''Pass'') df))"
  let ?b = "map (\<lambda>r. with_rank r Dash) (filter (\<lambda>r. Status r \<noteq> ''Pass'') df)"
  have a: "filter (\<lambda>r. Status r \<noteq> ''Pass'') ?a = []"
    using Status_ranked_pass [OF assms] by (simp add: filter_empty_conv)
  have b: "filter (\<lambda>r. Status r \<noteq> ''Pass'') ?b = ?b"
    by (simp add: filter_id_conv)
  show ?thesis
    unfolding ranking_eq filter_append a b by simp
qed

lemma iterrows_Inr:
  "iterrows tk df (rs, ims) = Inr (results, images) \<Longrightarrow>
   \<exists>rs' ims'. results = rs @ rs' \<and> images = ims @ ims' \<and>
      length rs' = length df \<and> length ims' = length df \<and>
      (\<forall>i<length df. evaluate_row tk (df ! i) = Inr (rs' ! i, ims' ! i))"
proof (induction df arbitrary: rs ims)
  case Nil
  then show ?case by simp
next
  case (Cons row df)
  from Cons.prems obtain r img where e: "evaluate_row tk row = Inr (r, img)"
    and l: "iterrows tk df (rs @ [r], ims @ [img]) = Inr (results, images)"
    by (auto split: sum.splits prod.splits)
  from Cons.IH [OF l] obtain rs' ims' where
    h: "results = (rs @ [r]) @ rs'" "images = (ims @ [img]) @ ims'"
       "length rs' = length df" "length ims' = length df"
       "\<forall>i<length df. evaluate_row tk (df ! i) = Inr (rs' ! i, ims' ! i)"
    by blast
  have "\<forall>i<length (row # df). evaluate_row tk ((row # df) ! i) = Inr ((r # rs') ! i, (img # ims') ! i)"
    using e h(5) by (simp add: nth_Cons split: nat.split)
  with h show ?case
    by (intro exI [of _ "r # rs'"] exI [of _ "img # ims'"]) simp
qed

lemma iterrows_rows:
  assumes "iterrows tk df ([], []) = Inr (results, images)"
  shows "length results = length df" and "length images = length df"
    and "\<And>i. i < length df \<Longrightarrow> evaluate_row tk (df ! i) = Inr (results ! i, images ! i)"
  using iterrows_Inr [OF assms] by auto

lemma analyze_Success:
  assumes "analyze tk argsort True (Some df) = Success p"
  shows "\<exists>results images.
           iterrows tk (rows df) ([], []) = Inr (results, images) \<and> results \<noteq> [] \<and>
           table p = ranking argsort results \<and>
           gallery (table p) images = Inr (shown_images p) \<and>
           passed p = pass_count (table p) \<and> failed p = fail_count (table p) \<and>
           csv p = to_csv (table p)"
  using assms
  by (auto simp add: analyze_def Let_def split: if_splits sum.splits prod.splits)

section \<open>Final ranks\<close>

text \<open>
  Claim C1, as the code has it. For every run that renders results, with any argsort that
  meets the contract of the library's default sort: the \<^verbatim>\<open>Final_Rank\<close> cells of the Pass
  rows of the final table, read from top to bottom, are exactly 1, 2, ..., K, where K is the
  number of evaluated records with status Pass, and the docking scores of these rows ascend
  from top to bottom. The order of Pass rows with equal docking scores is whatever the sort
  returns.
\<close>

theorem C1_final_rank:
  assumes "argsort_contract argsort"
    and "analyze tk argsort True (Some df) = Success p"
    and "iterrows tk (rows df) ([], []) = Inr (results, images)"
  shows "map Final_Rank (filter (\<lambda>r. Status r = ''Pass'') (table p)) =
           map Rank [1..<length (filter (\<lambda>r. Status r = ''Pass'') results) + 1] \<and>
         length (filter (\<lambda>r. Status r = ''Pass'') (table p)) =
           length (filter (\<lambda>r. Status r = ''Pass'') results) \<and>
         sorted (map Docking_Score (filter (\<lambda>r. Status r = ''Pass'') (table p)))"
proof -
  let ?pass = "filter (\<lambda>r. Status r = ''Pass'') results"
  let ?sorted = "sort_values argsort ?pass"
  from analyze_Success [OF assms(2)] assms(3) have t: "table p = ranking argsort results"
    by auto
  have f: "filter (\<lambda>r. Status r = ''Pass'') (table p) = assign_ranks ?sorted"
    unfolding t by (rule filter_pass_ranking [OF assms(1)])
  have n: "length ?sorted = length ?pass"
    by (rule length_sort_values [OF assms(1)])
  have k: "map Final_Rank (assign_ranks ?sorted) = map Rank [1..<length ?pass + 1]"
    by (simp only: Final_Rank_assign_ranks n)
  have "map Docking_Score (assign_ranks ?sorted) =
        map Docking_Score (map drop_rank (assign_ranks ?sorted))"
    by (simp add: comp_def)
  then have d: "map Docking_Score (assign_ranks ?sorted) = map Docking_Score ?sorted"
    by (simp only: drop_rank_assign_ranks)
  have s: "sorted (map Docking_Score (assign_ranks ?sorted))"
    unfolding d by (rule sorted_sort_values [OF assms(1)])
  show ?thesis
    unfolding f using k s by (simp add: length_assign_ranks n)
qed

text \<open>
  The end-to-end example of the specification with a failing row added: \<open>A\<close> at -7.2
  ranks first, \<open>B\<close> at -6.5 ranks second, the failing \<open>F\<close> and the uninterpretable \<open>C\<close>
  follow unranked.
\<close>

theorem C1_final_rank_witness:
  "argsort_contract stable_argsort \<and>
   map (\<lambda>r. (SMILES r, Docking_Score r, Status r, Final_Rank r))
     (evaluated_records (analyze example_toolkit stable_argsort True
        (Some (example_frame [(''F'', - 9), (''B'', - 65 / 10), (''A'', - 72 / 10), (''C'', - 8)])))) =
     [(Str ''A'', - 72 / 10, ''Pass'', Rank 1),
      (Str ''B'', - 65 / 10, ''Pass'', Rank 2),
      (Str ''F'', - 9, ''Fail (Lipinski Violation)'', Dash),
      (Str ''C'', - 8, ''Invalid SMILES'', Dash)] \<and>
   map Final_Rank (filter (\<lambda>r. Status r = ''Pass'')
     (evaluated_records (analyze example_toolkit stable_argsort True
        (Some (example_frame [(''F'', - 9), (''B'', - 65 / 10), (''A'', - 72 / 10), (''C'', - 8)]))))) =
     map Rank [1..<2 + 1]"
proof -
  let ?df = "example_frame [(''F'', - 9), (''B'', - 65 / 10), (''A'', - 72 / 10), (''C'', - 8)]"
  obtain results images
    where i: "iterrows example_toolkit (rows ?df) ([], []) = Inr (results, images)"
      and r: "map Status results =
                [''Fail (Lipinski Violation)'', ''Pass'', ''Pass'', ''Invalid SMILES'']"
    by (simp add: example_frame_def evaluate_row_def example_toolkit_def valid_result_def
        invalid_result_def Let_def violations_def status_def)
  obtain p
    where a: "analyze example_toolkit stable_argsort True (Some ?df) = Success p"
      and t: "map (\<lambda>r. (SMILES r, Docking_Score r, Status r, Final_Rank r)) (table p) =
                [(Str ''A'', - 72 / 10, ''Pass'', Rank 1),
                 (Str ''B'', - 65 / 10, ''Pass'', Rank 2),
                 (Str ''F'', - 9, ''Fail (Lipinski Violation)'', Dash),
                 (Str ''C'', - 8, ''Invalid SMILES'', Dash)]"
    by (simp add: analyze_def example_frame_def evaluate_row_def example_toolkit_def
        valid_result_def invalid_result_def Let_def violations_def status_def ranking_def
        sort_values_def stable_argsort_def assign_ranks_def with_rank_def gallery_def iloc_def)
  have "length (filter (\<lambda>r. Status r = ''Pass'') results) =
        length (filter (\<lambda>s. s = ''Pass'') (map Status results))"
    by (simp add: length_filter_map comp_def)
  then have n: "length (filter (\<lambda>r. Status r = ''Pass'') results) = 2"
    unfolding r by simp
  from C1_final_rank [OF stable_argsort_contract a i]
  have "map Final_Rank (filter (\<lambda>r. Status r = ''Pass'') (table p)) = map Rank [1..<2 + 1]"
    unfolding n by simp
  then show ?thesis
    using stable_argsort_contract a t by (simp add: evaluated_records_def)
qed

text \<open>
  The two sorts of the library at the inputs of the examples below, and at some shorter
  ones: two equal keys stay in place on both paths, and so does a sorted array of two pairs
  in the network.
\<close>

lemma argsort_8_64bit_two_pairs: "argsort_8_64bit [- 7, - 7, - 8, - 8] = [3, 2, 1, 0]"
  by code_simp

lemma library_sorts_short_arrays:
  "argsort_8_64bit [- 7, - 7] = [0, 1]"
  "argsort_8_64bit [- 8, - 8, - 7, - 7] = [0, 1, 2, 3]"
  "aquicksort [- 7, - 7] = [0, 1]"
  "aquicksort [- 7, - 7, - 8, - 8] = [2, 3, 0, 1]"
  by code_simp+

lemma aquicksort_tied:
  "aquicksort [- 7, - 7, - 7, - 7, - 7, - 7, - 7, - 7, - 7, - 7, - 7, - 7, - 7, - 7, - 7, - 7, - 7] =
     [0, 14, 13, 12, 11, 10, 9, 15, 8, 6, 5, 4, 3, 2, 1, 7, 16]"
  by code_simp

text \<open>
  The claim as worded also promises that Pass rows with equal docking scores keep their
  input order. The default sort does not keep them. In a run on a processor with AVX-512,
  where numpy sorts the four keys -7, -7, -8, -8 by its one-vector network, \<open>CCCC\<close> is
  ranked ahead of \<open>CCC\<close> and \<open>CC\<close> ahead of \<open>C\<close>, although the rows of each pair have
  one score and stand the other way round in the input. (The generic quicksort sorts up to
  sixteen rows by insertion, which leaves equal keys in place; from seventeen rows on its
  partition step moves them, as the run at the end of the section on ranking again shows.)
\<close>

theorem C1_tie_order_counterexample:
  "map (\<lambda>r. (SMILES r, Docking_Score r))
     (rows (example_frame [(''C'', - 7), (''CC'', - 7), (''CCC'', - 8), (''CCCC'', - 8)])) =
     [(Str ''C'', - 7), (Str ''CC'', - 7), (Str ''CCC'', - 8), (Str ''CCCC'', - 8)] \<and>
   map (\<lambda>r. (SMILES r, Docking_Score r, Status r, Final_Rank r))
     (evaluated_records (analyze alkane_toolkit argsort_8_64bit True
        (Some (example_frame [(''C'', - 7), (''CC'', - 7), (''CCC'', - 8), (''CCCC'', - 8)])))) =
     [(Str ''CCCC'', - 8, ''Pass'', Rank 1), (Str ''CCC'', - 8, ''Pass'', Rank 2),
      (Str ''CC'', - 7, ''Pass'', Rank 3), (Str ''C'', - 7, ''Pass'', Rank 4)]"
proof -
  have "map (\<lambda>r. (SMILES r, Docking_Score r, Status r, Final_Rank r))
     (evaluated_records (analyze alkane_toolkit argsort_8_64bit True
        (Some (example_frame [(''C'', - 7), (''CC'', - 7), (''CCC'', - 8), (''CCCC'', - 8)])))) =
     [(Str ''CCCC'', - 8, ''Pass'', Rank 1), (Str ''CCC'', - 8, ''Pass'', Rank 2),
      (Str ''CC'', - 7, ''Pass'', Rank 3), (Str ''C'', - 7, ''Pass'', Rank 4)]"
    by (simp add: analyze_def example_frame_def evaluate_row_def alkane_toolkit_def
        valid_result_def Let_def violations_def status_def ranking_def
        sort_values_def argsort_8_64bit_two_pairs assign_ranks_def with_rank_def gallery_def
        iloc_def evaluated_records_def)
  then show ?thesis
    by (simp add: example_frame_def)
qed

section \<open>Shape of the final table\<close>

lemma evaluate_row_input:
  "evaluate_row tk row = Inr (r, img) \<Longrightarrow> input_of r = row"
  by (auto simp add: evaluate_row_def input_of_def invalid_result_def valid_result_def Let_def
      split: cell.splits option.splits)

lemma iterrows_inputs:
  assumes "iterrows tk df ([], []) = Inr (results, images)"
  shows "map input_of results = df"
proof (rule nth_equalityI)
  show "length (map input_of results) = length df"
    using iterrows_rows(1) [OF assms] by simp
next
  fix i
  assume "i < length (map input_of results)"
  then have i: "i < length df" and j: "i < length results"
    using iterrows_rows(1) [OF assms] by simp_all
  from iterrows_rows(3) [OF assms i] have "input_of (results ! i) = df ! i"
    by (rule evaluate_row_input)
  with j show "map input_of results ! i = df ! i"
    by simp
qed

lemma table_split:
  assumes "argsort_contract argsort"
  shows "take (pass_count (ranking argsort df)) (ranking argsort df) =
           assign_ranks (sort_values argsort (filter (\<lambda>r. Status r = ''Pass'') df))"
    and "drop (pass_count (ranking argsort df)) (ranking argsort df) =
           map (\<lambda>r. with_rank r Dash) (filter (\<lambda>r. Status r \<noteq> ''Pass'') df)"
proof -
  let ?a = "assign_ranks (sort_values argsort (filter (\<lambda>r. Status r = ''Pass'') df))"
  have n: "pass_count (ranking argsort df) = length ?a"
    by (simp only: pass_count_def filter_pass_ranking [OF assms])
  show "take (pass_count (ranking argsort df)) (ranking argsort df) = ?a"
    unfolding n by (simp add: ranking_eq)
  show "drop (pass_count (ranking argsort df)) (ranking argsort df) =
           map (\<lambda>r. with_rank r Dash) (filter (\<lambda>r. Status r \<noteq> ''Pass'') df)"
    unfolding n by (simp add: ranking_eq)
qed

lemma drop_rank_unranked:
  "map drop_rank (map (\<lambda>r. with_rank r Dash) df) = df"
  by (simp add: comp_def drop_rank_with_rank)

text \<open>
  Claim C4. For every run that renders results, with any argsort that meets the contract of
  the library's sort: the final table has one row for every input row and, without the rank
  column, holds exactly the evaluated records (none dropped, none merged), which carry the
  input rows' cells in input order. Its first rows, as many as there are Pass records, are
  the Pass records in ascending order of docking score; the rows after them are the records
  that did not pass (Fail and Invalid SMILES) in their input order, each with the rank
  cell \<^verbatim>\<open>'-'\<close>.
\<close>

theorem C4_final_table:
  assumes "argsort_contract argsort"
    and "analyze tk argsort True (Some df) = Success p"
    and "iterrows tk (rows df) ([], []) = Inr (results, images)"
  shows "map input_of results = rows df \<and>
         length (table p) = length (rows df) \<and>
         mset (map drop_rank (table p)) = mset results \<and>
         passed p = length (filter (\<lambda>r. Status r = ''Pass'') results) \<and>
         (\<forall>r \<in> set (take (passed p) (table p)). Status r = ''Pass'') \<and>
         sorted (map Docking_Score (take (passed p) (table p))) \<and>
         mset (map drop_rank (take (passed p) (table p))) =
           mset (filter (\<lambda>r. Status r = ''Pass'') results) \<and>
         map drop_rank (drop (passed p) (table p)) =
           filter (\<lambda>r. Status r \<noteq> ''Pass'') results \<and>
         (\<forall>r \<in> set (drop (passed p) (table p)). Status r \<noteq> ''Pass'' \<and> Final_Rank r = Dash)"
proof -
  let ?pass = "filter (\<lambda>r. Status r = ''Pass'') results"
  let ?fail = "filter (\<lambda>r. Status r \<noteq> ''Pass'') results"
  let ?sorted = "sort_values argsort ?pass"
  from analyze_Success [OF assms(2)] assms(3)
  have t: "table p = ranking argsort results" and c: "passed p = pass_count (table p)"
    by auto
  have tk: "take (passed p) (table p) = assign_ranks ?sorted"
    unfolding c t by (rule table_split(1) [OF assms(1)])
  have dr: "drop (passed p) (table p) = map (\<lambda>r. with_rank r Dash) ?fail"
    unfolding c t by (rule table_split(2) [OF assms(1)])
  have tab: "table p = assign_ranks ?sorted @ map (\<lambda>r. with_rank r Dash) ?fail"
    unfolding t by (rule ranking_eq)
  have 1: "map input_of results = rows df"
    by (rule iterrows_inputs [OF assms(3)])
  have ms: "mset (map drop_rank (assign_ranks ?sorted)) = mset ?pass"
    by (simp only: drop_rank_assign_ranks mset_sort_values [OF assms(1)])
  have 3: "mset (map drop_rank (table p)) = mset results"
    unfolding tab map_append mset_append ms drop_rank_unranked
    by (simp add: mset_filter)
  have 2: "length (table p) = length (rows df)"
    using 3 [THEN arg_cong, of size] iterrows_rows(1) [OF assms(3)] by simp
  have 4: "passed p = length ?pass"
    unfolding c t pass_count_def filter_pass_ranking [OF assms(1)]
    by (simp add: length_assign_ranks length_sort_values [OF assms(1)])
  have 5: "\<forall>r \<in> set (take (passed p) (table p)). Status r = ''Pass''"
    unfolding tk using Status_ranked_pass [OF assms(1)] by blast
  have "map Docking_Score (assign_ranks ?sorted) =
        map Docking_Score (map drop_rank (assign_ranks ?sorted))"
    by (simp add: comp_def)
  then have "map Docking_Score (assign_ranks ?sorted) = map Docking_Score ?sorted"
    by (simp only: drop_rank_assign_ranks)
  then have 6: "sorted (map Docking_Score (take (passed p) (table p)))"
    unfolding tk using sorted_sort_values [OF assms(1), of ?pass] by simp
  have 7: "mset (map drop_rank (take (passed p) (table p))) = mset ?pass"
    unfolding tk by (rule ms)
  have 8: "map drop_rank (drop (passed p) (table p)) = ?fail"
    unfolding dr by (rule drop_rank_unranked)
  have 9: "\<forall>r \<in> set (drop (passed p) (table p)). Status r \<noteq> ''Pass'' \<and> Final_Rank r = Dash"
    unfolding dr by auto
  from 1 2 3 4 5 6 7 8 9 show ?thesis
    by blast
qed

text \<open>
  On the input \<open>F\<close>, \<open>B\<close>, \<open>A\<close>, \<open>C\<close> the table has the two Pass rows \<open>A\<close> and \<open>B\<close>
  first, then the failing \<open>F\<close> and the uninterpretable \<open>C\<close> in their input order.
\<close>

theorem C4_final_table_witness:
  "argsort_contract stable_argsort \<and>
   (case analyze example_toolkit stable_argsort True
      (Some (example_frame [(''F'', - 9), (''B'', - 65 / 10), (''A'', - 72 / 10), (''C'', - 8)])) of
      Success p \<Rightarrow>
        Some (passed p,
              map (\<lambda>r. (SMILES r, Docking_Score r, Final_Rank r)) (take (passed p) (table p)),
              map (\<lambda>r. (SMILES r, Docking_Score r, Final_Rank r)) (drop (passed p) (table p)),
              length (table p))
    | _ \<Rightarrow> None) =
     Some (2, [(Str ''A'', - 72 / 10, Rank 1), (Str ''B'', - 65 / 10, Rank 2)],
              [(Str ''F'', - 9, Dash), (Str ''C'', - 8, Dash)],
              length (rows (example_frame
                [(''F'', - 9), (''B'', - 65 / 10), (''A'', - 72 / 10), (''C'', - 8)])))"
proof -
  let ?df = "example_frame [(''F'', - 9), (''B'', - 65 / 10), (''A'', - 72 / 10), (''C'', - 8)]"
  obtain results images
    where i: "iterrows example_toolkit (rows ?df) ([], []) = Inr (results, images)"
    by (simp add: example_frame_def evaluate_row_def example_toolkit_def)
  obtain p
    where a: "analyze example_toolkit stable_argsort True (Some ?df) = Success p"
      and n: "passed p = 2"
      and t: "map (\<lambda>r. (SMILES r, Docking_Score r, Final_Rank r)) (table p) =
                [(Str ''A'', - 72 / 10, Rank 1), (Str ''B'', - 65 / 10, Rank 2),
                 (Str ''F'', - 9, Dash), (Str ''C'', - 8, Dash)]"
    by (simp add: analyze_def example_frame_def evaluate_row_def example_toolkit_def
        valid_result_def invalid_result_def Let_def violations_def status_def ranking_def
        sort_values_def stable_argsort_def assign_ranks_def with_rank_def gallery_def iloc_def
        pass_count_def)
  from C4_final_table [OF stable_argsort_contract a i]
  have l: "length (table p) = length (rows ?df)"
    by blast
  have "map (\<lambda>r. (SMILES r, Docking_Score r, Final_Rank r)) (take 2 (table p)) =
          [(Str ''A'', - 72 / 10, Rank 1), (Str ''B'', - 65 / 10, Rank 2)]"
    and "map (\<lambda>r. (SMILES r, Docking_Score r, Final_Rank r)) (drop 2 (table p)) =
          [(Str ''F'', - 9, Dash), (Str ''C'', - 8, Dash)]"
    using t by (simp_all flip: take_map drop_map)
  then show ?thesis
    using stable_argsort_contract a n l by simp
qed

section \<open>Summary counts\<close>

lemma str_contains_iff: "str_contains pat s \<longleftrightarrow> (\<exists>u v. s = u @ pat @ v)"
proof (induction s)
  case Nil
  show ?case by auto
next
  case (Cons c s)
  have p: "take (length pat) (c # s) = pat \<longleftrightarrow> (\<exists>v. c # s = pat @ v)"
    by (metis append_eq_conv_conj append_take_drop_id)
  show ?case
  proof
    assume "str_contains pat (c # s)"
    then consider "take (length pat) (c # s) = pat" | "str_contains pat s"
      by auto
    then show "\<exists>u v. c # s = u @ pat @ v"
    proof cases
      case 1
      with p obtain v where "c # s = [] @ pat @ v" by auto
      then show ?thesis by blast
    next
      case 2
      with Cons.IH obtain u v where "s = u @ pat @ v" by blast
      then have "c # s = (c # u) @ pat @ v" by simp
      then show ?thesis by blast
    qed
  next
    assume "\<exists>u v. c # s = u @ pat @ v"
    then obtain u v where e: "c # s = u @ pat @ v" by blast
    show "str_contains pat (c # s)"
    proof (cases u)
      case Nil
      with e have "\<exists>v. c # s = pat @ v" by auto
      with p have "take (length pat) (c # s) = pat" by blast
      then show ?thesis by simp
    next
      case (Cons d u')
      with e have "s = u' @ pat @ v" by simp
      with Cons.IH show ?thesis by auto
    qed
  qed
qed

lemma evaluate_row_Status:
  assumes "evaluate_row tk row = Inr (r, img)"
  shows "Status r = ''Pass'' \<or> Status r = ''Fail (Lipinski Violation)'' \<or>
         Status r = ''Invalid SMILES''"
    and "img = None \<longleftrightarrow> Status r = ''Invalid SMILES''"
  using assms
  by (auto simp add: evaluate_row_def invalid_result_def valid_result_def Let_def status_def
      split: cell.splits option.splits if_splits)

lemma iterrows_Status:
  assumes "iterrows tk df ([], []) = Inr (results, images)" and "r \<in> set results"
  shows "Status r = ''Pass'' \<or> Status r = ''Fail (Lipinski Violation)'' \<or>
         Status r = ''Invalid SMILES''"
proof -
  from assms(2) obtain i where i: "i < length results" and r: "r = results ! i"
    by (auto simp add: in_set_conv_nth)
  from i have "i < length df"
    using iterrows_rows(1) [OF assms(1)] by simp
  from iterrows_rows(3) [OF assms(1) this] show ?thesis
    unfolding r by (rule evaluate_row_Status(1))
qed

lemma contains_Fail:
  "str_contains ''Fail'' ''Fail (Lipinski Violation)''"
  "\<not> str_contains ''Fail'' ''Invalid SMILES''"
  "\<not> str_contains ''Fail'' ''Pass''"
  by simp_all

lemma count_by_Status:
  assumes "mset (map drop_rank df_final) = mset df_results"
  shows "length (filter (\<lambda>r. q (Status r)) df_final) =
         length (filter (\<lambda>r. q (Status r)) df_results)"
proof -
  have "length (filter (\<lambda>r. q (Status r)) df_final) =
        length (filter (\<lambda>r. q (Status r)) (map drop_rank df_final))"
    by (simp add: length_filter_map comp_def)
  also have "\<dots> = size (filter_mset (\<lambda>r. q (Status r)) (mset (map drop_rank df_final)))"
    by (simp only: mset_filter [symmetric] size_mset)
  also have "\<dots> = length (filter (\<lambda>r. q (Status r)) df_results)"
    unfolding assms by (simp only: mset_filter [symmetric] size_mset)
  finally show ?thesis .
qed

lemma mset_table:
  assumes "argsort_contract argsort"
  shows "mset (map drop_rank (ranking argsort df)) = mset df"
proof -
  have "mset (map drop_rank (assign_ranks
          (sort_values argsort (filter (\<lambda>r. Status r = ''Pass'') df)))) =
        mset (filter (\<lambda>r. Status r = ''Pass'') df)"
    by (simp only: drop_rank_assign_ranks mset_sort_values [OF assms])
  then show ?thesis
    unfolding ranking_eq map_append mset_append drop_rank_unranked
    by (simp add: mset_filter)
qed

text \<open>
  Claim C7. For every final table, the Pass metric is the number of rows whose status is
  \<^verbatim>\<open>Pass\<close>, and the Fail metric is the number of rows whose status has \<^verbatim>\<open>Fail\<close> as a
  substring. Of the three labels the pipeline writes only the Fail label has it, so the Fail
  metric counts the Fail records and leaves every Invalid SMILES record out: the two metrics
  and the number of Invalid SMILES records add up to the number of rows.
\<close>

theorem C7_summary_counts:
  assumes "argsort_contract argsort"
    and "analyze tk argsort True (Some df) = Success p"
  shows "passed p = length (filter (\<lambda>r. Status r = ''Pass'') (table p)) \<and>
         failed p = length (filter (\<lambda>r. \<exists>u v. Status r = u @ ''Fail'' @ v) (table p)) \<and>
         failed p = length (filter (\<lambda>r. Status r = ''Fail (Lipinski Violation)'') (table p)) \<and>
         (\<forall>r \<in> set (table p). Status r = ''Invalid SMILES'' \<longrightarrow>
            \<not> (\<exists>u v. Status r = u @ ''Fail'' @ v)) \<and>
         passed p + failed p +
           length (filter (\<lambda>r. Status r = ''Invalid SMILES'') (table p)) = length (table p)"
proof -
  from analyze_Success [OF assms(2)] obtain results images
    where i: "iterrows tk (rows df) ([], []) = Inr (results, images)"
      and t: "table p = ranking argsort results"
      and c: "passed p = pass_count (table p)" "failed p = fail_count (table p)"
    by blast
  have m: "mset (map drop_rank (table p)) = mset results"
    unfolding t by (rule mset_table [OF assms(1)])
  have st: "Status r = ''Pass'' \<or> Status r = ''Fail (Lipinski Violation)'' \<or>
            Status r = ''Invalid SMILES''" if "r \<in> set (table p)" for r
  proof -
    from that have "drop_rank r \<in> set (map drop_rank (table p))"
      by simp
    then have "drop_rank r \<in> set results"
      using m by (metis set_mset_mset)
    from iterrows_Status [OF i this] show ?thesis
      by simp
  qed
  have 1: "passed p = length (filter (\<lambda>r. Status r = ''Pass'') (table p))"
    by (simp add: c pass_count_def)
  have 2: "failed p = length (filter (\<lambda>r. \<exists>u v. Status r = u @ ''Fail'' @ v) (table p))"
    by (simp add: c fail_count_def str_contains_iff)
  have e: "filter (\<lambda>r. str_contains ''Fail'' (Status r)) (table p) =
           filter (\<lambda>r. Status r = ''Fail (Lipinski Violation)'') (table p)"
  proof (rule filter_cong [OF refl])
    fix r
    assume "r \<in> set (table p)"
    from st [OF this] show "str_contains ''Fail'' (Status r) =
        (Status r = ''Fail (Lipinski Violation)'')"
      using contains_Fail by auto
  qed
  have 3: "failed p = length (filter (\<lambda>r. Status r = ''Fail (Lipinski Violation)'') (table p))"
    by (simp only: c fail_count_def e)
  have 4: "\<forall>r \<in> set (table p). Status r = ''Invalid SMILES'' \<longrightarrow>
            \<not> (\<exists>u v. Status r = u @ ''Fail'' @ v)"
    using contains_Fail(2) by (simp add: str_contains_iff)
  have "length (filter (\<lambda>r. Status r = ''Pass'') xs) +
        length (filter (\<lambda>r. Status r = ''Fail (Lipinski Violation)'') xs) +
        length (filter (\<lambda>r. Status r = ''Invalid SMILES'') xs) = length xs"
    if "\<forall>r \<in> set xs. Status r = ''Pass'' \<or> Status r = ''Fail (Lipinski Violation)'' \<or>
            Status r = ''Invalid SMILES''" for xs :: "final_row list"
    using that by (induction xs) auto
  from this [of "table p"] st have 5: "passed p + failed p +
           length (filter (\<lambda>r. Status r = ''Invalid SMILES'') (table p)) = length (table p)"
    unfolding 1 3 by blast
  from 1 2 3 4 5 show ?thesis
    by blast
qed

text \<open>
  On the input \<open>F\<close>, \<open>B\<close>, \<open>A\<close>, \<open>C\<close>: two passed, one failed, and the uninterpretable
  \<open>C\<close> is in neither count.
\<close>

theorem C7_summary_counts_witness:
  "argsort_contract stable_argsort \<and>
   (case analyze example_toolkit stable_argsort True
      (Some (example_frame [(''F'', - 9), (''B'', - 65 / 10), (''A'', - 72 / 10), (''C'', - 8)])) of
      Success p \<Rightarrow> Some (passed p, failed p, map Status (table p))
    | _ \<Rightarrow> None) =
     Some (2, 1, [''Pass'', ''Pass'', ''Fail (Lipinski Violation)'', ''Invalid SMILES''])"
proof -
  let ?df = "example_frame [(''F'', - 9), (''B'', - 65 / 10), (''A'', - 72 / 10), (''C'', - 8)]"
  obtain p
    where a: "analyze example_toolkit stable_argsort True (Some ?df) = Success p"
      and t: "map Status (table p) =
                [''Pass'', ''Pass'', ''Fail (Lipinski Violation)'', ''Invalid SMILES'']"
    by (simp add: analyze_def example_frame_def evaluate_row_def example_toolkit_def
        valid_result_def invalid_result_def Let_def violations_def status_def ranking_def
        sort_values_def stable_argsort_def assign_ranks_def with_rank_def gallery_def iloc_def)
  have f: "length (filter (\<lambda>r. q (Status r)) (table p)) =
           length (filter q (map Status (table p)))" for q
    by (simp add: length_filter_map comp_def)
  from C7_summary_counts [OF stable_argsort_contract a]
  have "passed p = length (filter (\<lambda>r. Status r = ''Pass'') (table p))"
    and "failed p = length (filter (\<lambda>r. Status r = ''Fail (Lipinski Violation)'') (table p))"
    by blast+
  then have "passed p = 2" and "failed p = 1"
    unfolding f [of "\<lambda>s. s = ''Pass''"] f [of "\<lambda>s. s = ''Fail (Lipinski Violation)''"] t
    by simp_all
  then show ?thesis
    using stable_argsort_contract a t by simp
qed

section \<open>Runs that complete\<close>

lemma gallery_loop_enumerate:
  "n + length images \<le> length df_final \<Longrightarrow>
   gallery_loop df_final (enumerate n images) =
     Inr (List.map_filter
            (\<lambda>(i, im). map_option (\<lambda>img. (img, SMILES (df_final ! i), Docking_Score (df_final ! i))) im)
            (enumerate n images))"
proof (induction images arbitrary: n)
  case Nil
  show ?case by (simp add: List.map_filter_simps)
next
  case (Cons im images)
  from Cons.prems have n: "n < length df_final" and s: "Suc n + length images \<le> length df_final"
    by simp_all
  show ?case
  proof (cases im)
    case None
    then show ?thesis
      using Cons.IH [OF s] by (simp add: List.map_filter_simps)
  next
    case (Some img)
    then show ?thesis
      using Cons.IH [OF s] n by (simp add: List.map_filter_simps iloc_def)
  qed
qed

lemma gallery_eq:
  "length images \<le> length df_final \<Longrightarrow>
   gallery df_final images =
     Inr (List.map_filter
            (\<lambda>(i, im). map_option (\<lambda>img. (img, SMILES (df_final ! i), Docking_Score (df_final ! i))) im)
            (enumerate 0 images))"
  unfolding gallery_def by (rule gallery_loop_enumerate) simp

lemma length_ranking:
  "argsort_contract argsort \<Longrightarrow> length (ranking argsort df) = length df"
  using mset_table [of argsort df, THEN arg_cong, of size] by simp

lemma iterrows_total:
  "\<forall>row \<in> set df. \<exists>smiles. SMILES row = Str smiles \<Longrightarrow> \<exists>res. iterrows tk df acc = Inr res"
proof (induction df arbitrary: acc)
  case Nil
  show ?case by simp
next
  case (Cons row df)
  obtain results images where acc: "acc = (results, images)"
    by (cases acc)
  from Cons.prems obtain smiles where s: "SMILES row = Str smiles"
    by auto
  obtain r img where e: "evaluate_row tk row = Inr (r, img)"
    using s by (cases "MolFromSmiles tk smiles") (auto simp add: evaluate_row_def)
  from Cons.prems have "\<forall>row \<in> set df. \<exists>smiles. SMILES row = Str smiles"
    by simp
  from Cons.IH [OF this, of "(results @ [r], images @ [img])"] show ?case
    unfolding acc by (simp add: e)
qed

text \<open>
  A run on a frame with both columns, at least one row and a string in every SMILES cell
  renders results: nothing in the pipeline raises.
\<close>

lemma analyze_succeeds:
  assumes "argsort_contract argsort"
    and "''SMILES'' \<in> set (columns df)" and "''Docking_Score'' \<in> set (columns df)"
    and "rows df \<noteq> []" and "\<forall>row \<in> set (rows df). \<exists>smiles. SMILES row = Str smiles"
  shows "\<exists>p. analyze tk argsort True (Some df) = Success p"
proof -
  from iterrows_total [OF assms(5), of tk "([], [])"] obtain results images
    where i: "iterrows tk (rows df) ([], []) = Inr (results, images)"
    by (metis surj_pair)
  have l: "length results = length (rows df)" "length images = length (rows df)"
    using iterrows_rows(1,2) [OF i] by simp_all
  with assms(4) have ne: "results \<noteq> []"
    by auto
  have "length images \<le> length (ranking argsort results)"
    by (simp add: length_ranking [OF assms(1)] l)
  from gallery_eq [OF this] obtain shown
    where g: "gallery (ranking argsort results) images = Inr shown"
    by blast
  show ?thesis
    using assms(2,3) i ne g by (simp add: analyze_def Let_def)
qed

section \<open>Rows that are not interpreted\<close>

lemma iterrows_raises:
  "\<exists>r \<in> set df. \<forall>smiles. SMILES r \<noteq> Str smiles \<Longrightarrow> iterrows tk df acc = Inl ArgumentError"
proof (induction df arbitrary: acc)
  case Nil
  then show ?case by simp
next
  case (Cons row df)
  obtain results images where acc: "acc = (results, images)"
    by (cases acc)
  show ?case
  proof (cases "evaluate_row tk row")
    case (Inl e)
    then have "e = ArgumentError"
      by (auto simp add: evaluate_row_def split: cell.splits option.splits)
    with Inl show ?thesis
      by (simp add: acc)
  next
    case (Inr ri)
    then have "\<exists>smiles. SMILES row = Str smiles"
      by (auto simp add: evaluate_row_def split: cell.splits)
    with Cons.prems have "\<exists>r \<in> set df. \<forall>smiles. SMILES r \<noteq> Str smiles"
      by auto
    from Cons.IH [OF this] Inr show ?thesis
      by (simp add: acc split: prod.split)
  qed
qed

text \<open>
  Claim C3, as the code has it. Take a row whose SMILES cell is a string that the parser
  does not interpret (it returns \<^verbatim>\<open>None\<close>), anywhere in a frame with both columns whose
  other SMILES cells are strings too. Then the loop does not abort: it returns one record and
  one image slot for every row of the frame, each the evaluation of its row. The record of
  the row in question has the status \<^verbatim>\<open>Invalid SMILES\<close>, carries the row's two cells and
  has the four descriptors, the violation count and the ADMET label unset; its image slot is
  \<^verbatim>\<open>None\<close>; and the run renders a table with one row per input row in which this record
  stands unranked. A SMILES cell that is not a string (an empty or \<^verbatim>\<open>NA\<close> field, a
  number) is not evaluated to a record: the parser raises on it, and the run of any frame
  with such a cell ends with the processing error.
\<close>

theorem C3_uninterpretable_string:
  assumes "argsort_contract argsort"
    and "''SMILES'' \<in> set (columns df)" and "''Docking_Score'' \<in> set (columns df)"
    and "rows df = before @ row # after"
    and "SMILES row = Str smiles" and "MolFromSmiles tk smiles = None"
    and "\<forall>r \<in> set (before @ after). \<exists>s. SMILES r = Str s"
  shows "(\<exists>results images p.
            iterrows tk (rows df) ([], []) = Inr (results, images) \<and>
            length results = length (rows df) \<and> length images = length (rows df) \<and>
            (\<forall>i < length (rows df).
               evaluate_row tk (rows df ! i) = Inr (results ! i, images ! i)) \<and>
            Status (results ! length before) = ''Invalid SMILES'' \<and>
            SMILES (results ! length before) = SMILES row \<and>
            Docking_Score (results ! length before) = Docking_Score row \<and>
            MW (results ! length before) = None \<and> LogP (results ! length before) = None \<and>
            HDonors (results ! length before) = None \<and>
            HAcceptors (results ! length before) = None \<and>
            Violations (results ! length before) = None \<and>
            ADMET_Predict (results ! length before) = None \<and>
            images ! length before = None \<and>
            analyze tk argsort True (Some df) = Success p \<and>
            length (table p) = length (rows df) \<and>
            with_rank (results ! length before) Dash \<in> set (table p)) \<and>
         (\<forall>df'. ''SMILES'' \<in> set (columns df') \<and> ''Docking_Score'' \<in> set (columns df') \<and>
                (\<exists>r \<in> set (rows df'). \<forall>s. SMILES r \<noteq> Str s) \<longrightarrow>
                analyze tk argsort True (Some df') = Processing_Error ArgumentError)"
proof -
  have strings: "\<forall>r \<in> set (rows df). \<exists>s. SMILES r = Str s"
    using assms(4,5,7) by auto
  have ne: "rows df \<noteq> []"
    using assms(4) by simp
  from analyze_succeeds [OF assms(1,2,3) ne strings, of tk]
  obtain p where a: "analyze tk argsort True (Some df) = Success p"
    by blast
  from analyze_Success [OF a] obtain results images
    where i: "iterrows tk (rows df) ([], []) = Inr (results, images)"
      and t: "table p = ranking argsort results"
    by blast
  have lr: "length results = length (rows df)" and li: "length images = length (rows df)"
    by (rule iterrows_rows(1,2) [OF i])+
  have ev: "\<forall>i < length (rows df). evaluate_row tk (rows df ! i) = Inr (results ! i, images ! i)"
    using iterrows_rows(3) [OF i] by blast
  have pos: "length before < length (rows df)" and row: "rows df ! length before = row"
    using assms(4) by simp_all
  from ev pos row have "evaluate_row tk row = Inr (results ! length before, images ! length before)"
    by metis
  with evaluate_row_invalid [OF assms(5,6)]
  have r: "results ! length before = invalid_result row" and im: "images ! length before = None"
    by simp_all
  have lt: "length (table p) = length (rows df)"
    by (simp add: t length_ranking [OF assms(1)] lr)
  have "results ! length before \<in> set results"
    using pos lr by simp
  moreover have "Status (results ! length before) \<noteq> ''Pass''"
    by (simp add: r invalid_result_def)
  ultimately have "results ! length before \<in> set (filter (\<lambda>r. Status r \<noteq> ''Pass'') results)"
    by simp
  then have m: "with_rank (results ! length before) Dash \<in> set (table p)"
    unfolding t ranking_eq by simp
  have 1: "\<exists>results images p.
            iterrows tk (rows df) ([], []) = Inr (results, images) \<and>
            length results = length (rows df) \<and> length images = length (rows df) \<and>
            (\<forall>i < length (rows df).
               evaluate_row tk (rows df ! i) = Inr (results ! i, images ! i)) \<and>
            Status (results ! length before) = ''Invalid SMILES'' \<and>
            SMILES (results ! length before) = SMILES row \<and>
            Docking_Score (results ! length before) = Docking_Score row \<and>
            MW (results ! length before) = None \<and> LogP (results ! length before) = None \<and>
            HDonors (results ! length before) = None \<and>
            HAcceptors (results ! length before) = None \<and>
            Violations (results ! length before) = None \<and>
            ADMET_Predict (results ! length before) = None \<and>
            images ! length before = None \<and>
            analyze tk argsort True (Some df) = Success p \<and>
            length (table p) = length (rows df) \<and>
            with_rank (results ! length before) Dash \<in> set (table p)"
    using i lr li ev im a lt m
    by (intro exI [of _ results] exI [of _ images] exI [of _ p])
      (simp add: r invalid_result_def)
  have 2: "\<forall>df'. ''SMILES'' \<in> set (columns df') \<and> ''Docking_Score'' \<in> set (columns df') \<and>
                (\<exists>r \<in> set (rows df'). \<forall>s. SMILES r \<noteq> Str s) \<longrightarrow>
                analyze tk argsort True (Some df') = Processing_Error ArgumentError"
    by (simp add: analyze_def iterrows_raises)
  from 1 2 show ?thesis
    by blast
qed

text \<open>
  The string \<open>X\<close> is not interpreted by the example toolkit. Between \<open>A\<close> and \<open>B\<close> it
  yields the invalid record; both neighbours are evaluated and ranked, and \<open>X\<close> follows
  them unranked.
\<close>

theorem C3_uninterpretable_string_witness:
  "argsort_contract stable_argsort \<and>
   rows (example_frame [(''A'', - 7), (''X'', - 8), (''B'', - 6)]) =
     [\<lparr>SMILES = Str ''A'', Docking_Score = - 7\<rparr>] @ \<lparr>SMILES = Str ''X'', Docking_Score = - 8\<rparr> #
     [\<lparr>SMILES = Str ''B'', Docking_Score = - 6\<rparr>] \<and>
   MolFromSmiles example_toolkit ''X'' = None \<and>
   (case analyze example_toolkit stable_argsort True
      (Some (example_frame [(''A'', - 7), (''X'', - 8), (''B'', - 6)])) of
      Success p \<Rightarrow>
        Some (map (\<lambda>r. (SMILES r, Status r, Violations r, ADMET_Predict r, Final_Rank r)) (table p))
    | _ \<Rightarrow> None) =
     Some [(Str ''A'', ''Pass'', Some 0, Some ''Good'', Rank 1),
           (Str ''B'', ''Pass'', Some 1, Some ''Moderate'', Rank 2),
           (Str ''X'', ''Invalid SMILES'', None, None, Dash)] \<and>
   (case iterrows example_toolkit
      (rows (example_frame [(''A'', - 7), (''X'', - 8), (''B'', - 6)])) ([], []) of
      Inr (results, images) \<Rightarrow> Some (map Status results, images)
    | Inl e \<Rightarrow> None) =
     Some ([''Pass'', ''Invalid SMILES'', ''Pass''],
           [Some (180, 12 / 10, 1, 4), None, Some (250, 55 / 10, 2, 3)])"
proof -
  let ?df = "example_frame [(''A'', - 7), (''X'', - 8), (''B'', - 6)]"
  let ?before = "[\<lparr>SMILES = Str ''A'', Docking_Score = - 7\<rparr>]"
  let ?row = "\<lparr>SMILES = Str ''X'', Docking_Score = - 8\<rparr>"
  let ?after = "[\<lparr>SMILES = Str ''B'', Docking_Score = - 6\<rparr>]"
  have c: "''SMILES'' \<in> set (columns ?df)" "''Docking_Score'' \<in> set (columns ?df)"
    by (simp_all add: example_frame_def)
  have d: "rows ?df = ?before @ ?row # ?after"
    by (simp add: example_frame_def)
  have s: "SMILES ?row = Str ''X''"
    by simp
  have n: "MolFromSmiles example_toolkit ''X'' = None"
    by (simp add: example_toolkit_def)
  have o: "\<forall>r \<in> set (?before @ ?after). \<exists>s. SMILES r = Str s"
    by simp
  from C3_uninterpretable_string [OF stable_argsort_contract c d s n o]
  obtain p where a: "analyze example_toolkit stable_argsort True (Some ?df) = Success p"
    by blast
  have t: "map (\<lambda>r. (SMILES r, Status r, Violations r, ADMET_Predict r, Final_Rank r))
      (evaluated_records (analyze example_toolkit stable_argsort True (Some ?df))) =
     [(Str ''A'', ''Pass'', Some 0, Some ''Good'', Rank 1),
      (Str ''B'', ''Pass'', Some 1, Some ''Moderate'', Rank 2),
      (Str ''X'', ''Invalid SMILES'', None, None, Dash)]"
    by (simp add: analyze_def example_frame_def evaluate_row_def example_toolkit_def
        valid_result_def invalid_result_def Let_def violations_def status_def ranking_def
        sort_values_def stable_argsort_def assign_ranks_def with_rank_def gallery_def iloc_def
        evaluated_records_def admet_prediction_def)
  have i: "(case iterrows example_toolkit (rows ?df) ([], []) of
      Inr (results, images) \<Rightarrow> Some (map Status results, images)
    | Inl e \<Rightarrow> None) =
     Some ([''Pass'', ''Invalid SMILES'', ''Pass''],
           [Some (180, 12 / 10, 1, 4), None, Some (250, 55 / 10, 2, 3)])"
    by (simp add: example_frame_def evaluate_row_def example_toolkit_def valid_result_def
        invalid_result_def Let_def violations_def status_def)
  show ?thesis
    using stable_argsort_contract d n t i a by (simp add: evaluated_records_def)
qed

text \<open>
  The claim as worded covers every identifier that fails to interpret. An empty SMILES field
  is read as a missing value and a column of digits as numbers; the parser raises on both.
  With such a cell between \<open>A\<close> and \<open>B\<close> the run ends with the processing error: no
  row gets an Invalid SMILES record, the record of \<open>A\<close> is discarded and \<open>B\<close> is never
  evaluated.
\<close>

theorem C3_not_a_string_counterexample:
  "evaluate_row example_toolkit \<lparr>SMILES = NaN, Docking_Score = - 8\<rparr> = Inl ArgumentError \<and>
   analyze example_toolkit stable_argsort True
     (Some \<lparr>columns = [''SMILES'', ''Docking_Score''],
            rows = [\<lparr>SMILES = Str ''A'', Docking_Score = - 7\<rparr>,
                    \<lparr>SMILES = NaN, Docking_Score = - 8\<rparr>,
                    \<lparr>SMILES = Str ''B'', Docking_Score = - 6\<rparr>]\<rparr>) =
     Processing_Error ArgumentError \<and>
   evaluated_records (analyze example_toolkit stable_argsort True
     (Some \<lparr>columns = [''SMILES'', ''Docking_Score''],
            rows = [\<lparr>SMILES = Str ''A'', Docking_Score = - 7\<rparr>,
                    \<lparr>SMILES = NaN, Docking_Score = - 8\<rparr>,
                    \<lparr>SMILES = Str ''B'', Docking_Score = - 6\<rparr>]\<rparr>)) = [] \<and>
   analyze example_toolkit stable_argsort True
     (Some \<lparr>columns = [''SMILES'', ''Docking_Score''],
            rows = [\<lparr>SMILES = Num 1, Docking_Score = - 7\<rparr>,
                    \<lparr>SMILES = Num 2, Docking_Score = - 8\<rparr>]\<rparr>) =
     Processing_Error ArgumentError"
  by (simp add: analyze_def evaluate_row_def example_toolkit_def evaluated_records_def)

section \<open>The exported table\<close>

text \<open>
  Claim C8. For every run that passes the column check and completes, the exported table
  has exactly as many rows as the input frame, and its columns are exactly the ten cells of
  an evaluated record: \<^verbatim>\<open>SMILES\<close>, \<^verbatim>\<open>Docking_Score\<close>, \<^verbatim>\<open>Status\<close>, the four
  descriptors \<^verbatim>\<open>MW\<close>, \<^verbatim>\<open>LogP\<close>, \<^verbatim>\<open>HDonors\<close> and \<^verbatim>\<open>HAcceptors\<close>,
  \<^verbatim>\<open>Violations\<close>, \<^verbatim>\<open>ADMET_Predict\<close> and \<^verbatim>\<open>Final_Rank\<close>, one field for each in every
  row.
\<close>

theorem C8_export:
  assumes "argsort_contract argsort"
    and "analyze tk argsort True (Some df) = Success p"
  shows "length (snd (csv p)) = length (rows df) \<and>
         fst (csv p) = [''SMILES'', ''Docking_Score'', ''Status'', ''MW'', ''LogP'', ''HDonors'',
                        ''HAcceptors'', ''Violations'', ''ADMET_Predict'', ''Final_Rank''] \<and>
         distinct (fst (csv p)) \<and>
         snd (csv p) = map (csv_fields (table p)) (table p) \<and>
         (\<forall>fields \<in> set (snd (csv p)). length fields = length (fst (csv p)))"
proof -
  from analyze_Success [OF assms(2)] obtain results images
    where i: "iterrows tk (rows df) ([], []) = Inr (results, images)"
      and t: "table p = ranking argsort results"
      and c: "csv p = to_csv (table p)"
    by blast
  have "length (table p) = length (rows df)"
    unfolding t using length_ranking [OF assms(1)] iterrows_rows(1) [OF i] by simp
  then have 1: "length (snd (csv p)) = length (rows df)"
    by (simp add: c to_csv_def)
  have 2: "fst (csv p) = [''SMILES'', ''Docking_Score'', ''Status'', ''MW'', ''LogP'', ''HDonors'',
                        ''HAcceptors'', ''Violations'', ''ADMET_Predict'', ''Final_Rank'']"
    by (simp add: c to_csv_def csv_header_def)
  have 3: "distinct (fst (csv p))"
    unfolding 2 by simp
  have 4: "snd (csv p) = map (csv_fields (table p)) (table p)"
    by (simp add: c to_csv_def)
  have 5: "\<forall>fields \<in> set (snd (csv p)). length fields = length (fst (csv p))"
    unfolding 2 4 by (auto simp add: csv_fields_def)
  from 1 2 3 4 5 show ?thesis
    by blast
qed

text \<open>
  The export for the input \<open>B\<close>, \<open>C\<close>: two rows of ten fields under the ten labels.
  The uninterpretable \<open>C\<close> leaves \<^verbatim>\<open>None\<close> in the three count columns, so the counts
  of \<open>B\<close> are written as floats.
\<close>

theorem C8_export_witness:
  "argsort_contract stable_argsort \<and>
   (case analyze example_toolkit stable_argsort True
      (Some (example_frame [(''B'', - 65 / 10), (''C'', - 8)])) of
      Success p \<Rightarrow> Some (csv p)
    | _ \<Rightarrow> None) =
     Some ([''SMILES'', ''Docking_Score'', ''Status'', ''MW'', ''LogP'', ''HDonors'',
            ''HAcceptors'', ''Violations'', ''ADMET_Predict'', ''Final_Rank''],
           [[Text ''B'', Number (- 65 / 10), Text ''Pass'', Number 250, Number (55 / 10),
             Number 2, Number 3, Number 1, Text ''Moderate'', Count 1],
            [Text ''C'', Number (- 8), Text ''Invalid SMILES'', Empty, Empty,
             Empty, Empty, Empty, Empty, Text ''-'']]) \<and>
   length (rows (example_frame [(''B'', - 65 / 10), (''C'', - 8)])) = 2"
proof -
  let ?df = "example_frame [(''B'', - 65 / 10), (''C'', - 8)]"
  obtain p
    where a: "analyze example_toolkit stable_argsort True (Some ?df) = Success p"
      and t: "map (csv_fields (table p)) (table p) =
           [[Text ''B'', Number (- 65 / 10), Text ''Pass'', Number 250, Number (55 / 10),
             Number 2, Number 3, Number 1, Text ''Moderate'', Count 1],
            [Text ''C'', Number (- 8), Text ''Invalid SMILES'', Empty, Empty,
             Empty, Empty, Empty, Empty, Text ''-'']]"
    by (simp add: analyze_def example_frame_def evaluate_row_def example_toolkit_def
        valid_result_def invalid_result_def Let_def violations_def status_def ranking_def
        sort_values_def stable_argsort_def assign_ranks_def with_rank_def gallery_def iloc_def
        csv_fields_def count_field_def admet_prediction_def round2_def round_half_even_def)
  from C8_export [OF stable_argsort_contract a]
  have "fst (csv p) = [''SMILES'', ''Docking_Score'', ''Status'', ''MW'', ''LogP'', ''HDonors'',
                        ''HAcceptors'', ''Violations'', ''ADMET_Predict'', ''Final_Rank'']"
    and "snd (csv p) = map (csv_fields (table p)) (table p)"
    by blast+
  then have "csv p = ([''SMILES'', ''Docking_Score'', ''Status'', ''MW'', ''LogP'', ''HDonors'',
            ''HAcceptors'', ''Violations'', ''ADMET_Predict'', ''Final_Rank''],
           [[Text ''B'', Number (- 65 / 10), Text ''Pass'', Number 250, Number (55 / 10),
             Number 2, Number 3, Number 1, Text ''Moderate'', Count 1],
            [Text ''C'', Number (- 8), Text ''Invalid SMILES'', Empty, Empty,
             Empty, Empty, Empty, Empty, Text ''-'']])"
    unfolding t by (simp add: prod_eq_iff)
  then show ?thesis
    using stable_argsort_contract a by (simp add: example_frame_def)
qed

section \<open>The structure gallery\<close>

lemma filter_positions:
  assumes "\<And>i. i < length xs \<Longrightarrow> P (xs ! i) \<Longrightarrow> i < length (filter P xs)"
  shows "xs = filter P xs @ filter (\<lambda>x. \<not> P x) xs"
proof -
  define k where "k = length (filter P xs)"
  have late: "\<not> P x" if "x \<in> set (drop k xs)" for x
  proof -
    from that obtain j where j: "j < length (drop k xs)" and x: "x = drop k xs ! j"
      by (auto simp add: in_set_conv_nth)
    from j have lt: "k + j < length xs" by simp
    have "\<not> P (xs ! (k + j))"
    proof
      assume "P (xs ! (k + j))"
      from assms [OF lt this] show False by (simp add: k_def)
    qed
    moreover have "x = xs ! (k + j)"
      using x lt by simp
    ultimately show ?thesis by simp
  qed
  have d: "filter P (drop k xs) = []"
    unfolding filter_empty_conv using late by blast
  have n: "filter (\<lambda>x. \<not> P x) (drop k xs) = drop k xs"
    unfolding filter_id_conv using late by blast
  have "filter P xs = filter P (take k xs @ drop k xs)"
    by simp
  also have "\<dots> = filter P (take k xs)"
    unfolding filter_append d by simp
  finally have e: "filter P xs = filter P (take k xs)" .
  have "length (filter P (take k xs)) = k"
    using e by (simp add: k_def)
  moreover have "length (take k xs) \<le> k"
    by simp
  ultimately have le: "length (take k xs) \<le> length (filter P (take k xs))"
    by simp
  have early: "P x" if "x \<in> set (take k xs)" for x
  proof (rule ccontr)
    assume "\<not> P x"
    with that have "length (filter P (take k xs)) < length (take k xs)"
      by (rule length_filter_less)
    with leD [OF le] show False
      by blast
  qed
  have t: "filter P (take k xs) = take k xs"
    unfolding filter_id_conv using early by blast
  have t': "filter (\<lambda>x. \<not> P x) (take k xs) = []"
    unfolding filter_empty_conv using early by blast
  have "filter (\<lambda>x. \<not> P x) xs = filter (\<lambda>x. \<not> P x) (take k xs @ drop k xs)"
    by simp
  also have "\<dots> = drop k xs"
    unfolding filter_append t' n by simp
  finally have f: "filter (\<lambda>x. \<not> P x) xs = drop k xs" .
  have "xs = take k xs @ drop k xs"
    by simp
  then show ?thesis
    unfolding e t f .
qed

lemma input_of_drop_rank [simp]: "input_of (drop_rank f) = input_of f"
  by (simp add: input_of_def)

text \<open>
  Evaluation is a function of the row: two evaluated records of one run with the same
  \<^verbatim>\<open>SMILES\<close> and \<^verbatim>\<open>Docking_Score\<close> cells are the same record.
\<close>

lemma iterrows_determined:
  assumes "iterrows tk df ([], []) = Inr (results, images)"
    and "r \<in> set results" and "r' \<in> set results" and "input_of r = input_of r'"
  shows "r = r'"
proof -
  from assms(2,3) obtain i j where i: "i < length results" "r = results ! i"
    and j: "j < length results" "r' = results ! j"
    by (auto simp add: in_set_conv_nth)
  have l: "length results = length df"
    by (rule iterrows_rows(1) [OF assms(1)])
  have ei: "evaluate_row tk (df ! i) = Inr (results ! i, images ! i)"
    using iterrows_rows(3) [OF assms(1)] i l by simp
  have ej: "evaluate_row tk (df ! j) = Inr (results ! j, images ! j)"
    using iterrows_rows(3) [OF assms(1)] j l by simp
  have "df ! i = df ! j"
    using evaluate_row_input [OF ei] evaluate_row_input [OF ej] assms(4) i j by simp
  with ei ej have "results ! i = results ! j"
    by simp
  with i j show ?thesis
    by simp
qed

text \<open>
  If every row of the ranked table that stands at the position of an interpretable input row
  carries that input row's cells, the ranking has not moved any record.
\<close>

lemma ranking_same_order:
  assumes c: "argsort_contract argsort"
    and det: "\<And>r r'. r \<in> set results \<Longrightarrow> r' \<in> set results \<Longrightarrow>
                input_of r = input_of r' \<Longrightarrow> r = r'"
    and fixed: "\<And>i. i < length results \<Longrightarrow> Status (results ! i) \<noteq> ''Invalid SMILES'' \<Longrightarrow>
                input_of (ranking argsort results ! i) = input_of (results ! i)"
  shows "map drop_rank (ranking argsort results) = results"
proof -
  let ?P = "\<lambda>r. Status r = ''Pass''"
  define pass where "pass = filter ?P results"
  define fail where "fail = filter (\<lambda>r. \<not> ?P r) results"
  define sorted_pass where "sorted_pass = sort_values argsort pass"
  define T where "T = map drop_rank (ranking argsort results)"
  have T: "T = sorted_pass @ fail"
    unfolding T_def ranking_eq map_append drop_rank_assign_ranks drop_rank_unranked
    by (simp add: sorted_pass_def pass_def fail_def)
  have lT: "length T = length results"
    by (simp add: T_def length_ranking [OF c])
  have sT: "set T = set results"
    using mset_table [OF c, of results] unfolding T_def by (metis set_mset_mset)
  have ls: "length sorted_pass = length pass"
    by (simp add: sorted_pass_def length_sort_values [OF c])
  have same: "T ! i = results ! i"
    if "i < length results" and "Status (results ! i) \<noteq> ''Invalid SMILES''" for i
  proof -
    have "T ! i \<in> set results"
      using that(1) lT sT by (metis nth_mem)
    moreover have "results ! i \<in> set results"
      using that(1) by simp
    moreover have "input_of (T ! i) = input_of (results ! i)"
      using fixed [OF that] that(1) by (simp add: T_def length_ranking [OF c])
    ultimately show ?thesis
      by (rule det)
  qed
  have pos: "i < length (filter ?P results)" if "i < length results" and "?P (results ! i)" for i
  proof (rule ccontr)
    assume "\<not> i < length (filter ?P results)"
    then have ge: "length sorted_pass \<le> i"
      by (simp add: ls pass_def)
    from that(2) have "Status (results ! i) \<noteq> ''Invalid SMILES''"
      by simp
    from same [OF that(1) this] have "?P (T ! i)"
      using that(2) by simp
    moreover have "T ! i = fail ! (i - length sorted_pass)"
      using ge by (simp add: T nth_append)
    moreover have "i - length sorted_pass < length fail"
      using ge that(1) lT by (simp add: T)
    then have "fail ! (i - length sorted_pass) \<in> set fail"
      by (rule nth_mem)
    then have "\<not> ?P (fail ! (i - length sorted_pass))"
      by (simp add: fail_def)
    ultimately show False
      by simp
  qed
  have r: "results = pass @ fail"
    unfolding pass_def fail_def by (rule filter_positions) (rule pos)
  have "sorted_pass = pass"
  proof (rule nth_equalityI)
    show "length sorted_pass = length pass"
      by (rule ls)
  next
    fix i
    assume "i < length sorted_pass"
    then have i: "i < length pass"
      by (simp add: ls)
    then have "pass ! i \<in> set pass"
      by (rule nth_mem)
    then have p: "?P (pass ! i)"
      by (simp add: pass_def)
    have ri: "results ! i = pass ! i"
      using i by (subst r) (simp add: nth_append)
    have "i < length results"
      using i by (subst r) simp
    moreover have "Status (results ! i) \<noteq> ''Invalid SMILES''"
      using p ri by simp
    ultimately have "T ! i = results ! i"
      by (rule same)
    then show "sorted_pass ! i = pass ! i"
      using i ri by (simp add: T nth_append ls)
  qed
  then have "T = results"
    using T r by simp
  then show ?thesis
    by (simp add: T_def)
qed
lemma evaluate_row_image:
  assumes "evaluate_row tk row = Inr (r, img)"
  shows "img = (case SMILES row of
                  Str s \<Rightarrow> map_option (MolToImage tk) (MolFromSmiles tk s)
                | _ \<Rightarrow> None)"
  using assms by (auto simp add: evaluate_row_def split: cell.splits option.splits)

lemma shown_member:
  assumes "i < length images" and "images ! i = Some img"
  shows "(img, SMILES (df_final ! i), Docking_Score (df_final ! i)) \<in>
         set (List.map_filter
           (\<lambda>(i, im). map_option (\<lambda>img. (img, SMILES (df_final ! i), Docking_Score (df_final ! i))) im)
           (enumerate 0 images))"
proof -
  let ?f = "\<lambda>(i, im). map_option (\<lambda>img. (img, SMILES (df_final ! i), Docking_Score (df_final ! i))) im"
  have m: "(i, Some img) \<in> set (enumerate 0 images)"
    using assms by (simp add: in_set_enumerate_eq)
  have v: "?f (i, Some img) = Some (img, SMILES (df_final ! i), Docking_Score (df_final ! i))"
    by simp
  have "(the \<circ> ?f) (i, Some img) \<in> (the \<circ> ?f) ` {x \<in> set (enumerate 0 images). ?f x \<noteq> None}"
    using m v by (intro imageI) simp
  then show ?thesis
    unfolding List.map_filter_def using v by simp
qed

text \<open>
  Claim C10. In every run that renders results, the entry of \<^verbatim>\<open>images\<close> at position
  \<open>i\<close> is the depiction of input row \<open>i\<close> (\<^verbatim>\<open>None\<close> when its SMILES string is not
  interpreted), and the gallery shows every depiction that is not \<^verbatim>\<open>None\<close> under a
  caption made of the \<^verbatim>\<open>SMILES\<close> and \<^verbatim>\<open>Docking_Score\<close> cells of row \<open>i\<close> of the
  final, rank-ordered table. Hence whenever the ranking has moved any record, some depiction
  is shown under the SMILES and score of a record other than its own.
\<close>

theorem C10_gallery_captions:
  assumes "argsort_contract argsort"
    and "analyze tk argsort True (Some df) = Success p"
    and "iterrows tk (rows df) ([], []) = Inr (results, images)"
  shows "length images = length (rows df) \<and>
         (\<forall>i<length (rows df).
            images ! i = (case SMILES (rows df ! i) of
                            Str s \<Rightarrow> map_option (MolToImage tk) (MolFromSmiles tk s)
                          | _ \<Rightarrow> None)) \<and>
         shown_images p =
           List.map_filter
             (\<lambda>(i, im). map_option
                (\<lambda>img. (img, SMILES (table p ! i), Docking_Score (table p ! i))) im)
             (enumerate 0 images) \<and>
         (map drop_rank (table p) \<noteq> results \<longrightarrow>
            (\<exists>i<length images. \<exists>img.
               images ! i = Some img \<and>
               (img, SMILES (table p ! i), Docking_Score (table p ! i)) \<in> set (shown_images p) \<and>
               input_of (table p ! i) \<noteq> rows df ! i))"
proof -
  from analyze_Success [OF assms(2)] assms(3)
  have t: "table p = ranking argsort results"
    and g: "gallery (table p) images = Inr (shown_images p)"
    by auto
  have lr: "length results = length (rows df)" and li: "length images = length (rows df)"
    by (rule iterrows_rows(1,2) [OF assms(3)])+
  have ev: "evaluate_row tk (rows df ! i) = Inr (results ! i, images ! i)"
    if "i < length (rows df)" for i
    using that by (rule iterrows_rows(3) [OF assms(3)])
  have 2: "\<forall>i<length (rows df).
            images ! i = (case SMILES (rows df ! i) of
                            Str s \<Rightarrow> map_option (MolToImage tk) (MolFromSmiles tk s)
                          | _ \<Rightarrow> None)"
    using ev by (blast intro: evaluate_row_image)
  have "length images \<le> length (table p)"
    by (simp add: t length_ranking [OF assms(1)] li lr)
  from gallery_eq [OF this] g
  have 3: "shown_images p =
           List.map_filter
             (\<lambda>(i, im). map_option
                (\<lambda>img. (img, SMILES (table p ! i), Docking_Score (table p ! i))) im)
             (enumerate 0 images)"
    by simp
  have 4: "\<exists>i<length images. \<exists>img.
               images ! i = Some img \<and>
               (img, SMILES (table p ! i), Docking_Score (table p ! i)) \<in> set (shown_images p) \<and>
               input_of (table p ! i) \<noteq> rows df ! i"
    if moved: "map drop_rank (table p) \<noteq> results"
  proof (rule ccontr)
    assume none: "\<not> ?thesis"
    have "map drop_rank (ranking argsort results) = results"
    proof (rule ranking_same_order [OF assms(1)])
      fix r r'
      assume "r \<in> set results" and "r' \<in> set results" and "input_of r = input_of r'"
      then show "r = r'"
        by (rule iterrows_determined [OF assms(3)])
    next
      fix i
      assume i: "i < length results" and valid: "Status (results ! i) \<noteq> ''Invalid SMILES''"
      from i have i': "i < length (rows df)" and i'': "i < length images"
        by (simp_all add: lr li)
      from evaluate_row_Status(2) [OF ev [OF i']] valid
      obtain img where img: "images ! i = Some img"
        by auto
      have "(img, SMILES (table p ! i), Docking_Score (table p ! i)) \<in> set (shown_images p)"
        unfolding 3 using i'' img by (rule shown_member)
      with none i'' img have "input_of (table p ! i) = rows df ! i"
        by blast
      also have "\<dots> = input_of (results ! i)"
        using evaluate_row_input [OF ev [OF i']] by simp
      finally show "input_of (ranking argsort results ! i) = input_of (results ! i)"
        by (simp add: t)
    qed
    with moved show False
      by (simp add: t)
  qed
  from li 2 3 4 show ?thesis
    by blast
qed

text \<open>
  On the input \<open>B\<close>, \<open>A\<close>, \<open>C\<close> the ranking puts \<open>A\<close> first. The first image, the
  depiction of \<open>B\<close>, is shown under the SMILES and score of \<open>A\<close>, and the depiction of
  \<open>A\<close> under those of \<open>B\<close>.
\<close>

theorem C10_gallery_captions_witness:
  "argsort_contract stable_argsort \<and>
   (case analyze example_toolkit stable_argsort True
      (Some (example_frame [(''B'', - 65 / 10), (''A'', - 72 / 10), (''C'', - 8)])) of
      Success p \<Rightarrow> Some (shown_images p, map SMILES (table p))
    | _ \<Rightarrow> None) =
     Some ([((250, 55 / 10, 2, 3), Str ''A'', - 72 / 10),
            ((180, 12 / 10, 1, 4), Str ''B'', - 65 / 10)],
           [Str ''A'', Str ''B'', Str ''C'']) \<and>
   (case iterrows example_toolkit
      (rows (example_frame [(''B'', - 65 / 10), (''A'', - 72 / 10), (''C'', - 8)])) ([], []) of
      Inr (results, images) \<Rightarrow> Some (map SMILES results, images)
    | Inl e \<Rightarrow> None) =
     Some ([Str ''B'', Str ''A'', Str ''C''],
           [Some (250, 55 / 10, 2, 3), Some (180, 12 / 10, 1, 4), None])"
proof -
  let ?df = "example_frame [(''B'', - 65 / 10), (''A'', - 72 / 10), (''C'', - 8)]"
  obtain results images
    where i: "iterrows example_toolkit (rows ?df) ([], []) = Inr (results, images)"
      and r: "map SMILES results = [Str ''B'', Str ''A'', Str ''C'']"
      and im: "images = [Some (250, 55 / 10, 2, 3), Some (180, 12 / 10, 1, 4), None]"
    by (simp add: example_frame_def evaluate_row_def example_toolkit_def valid_result_def
        invalid_result_def Let_def)
  obtain p
    where a: "analyze example_toolkit stable_argsort True (Some ?df) = Success p"
      and t: "map (\<lambda>r. (SMILES r, Docking_Score r)) (table p) =
                [(Str ''A'', - 72 / 10), (Str ''B'', - 65 / 10), (Str ''C'', - 8)]"
    by (simp add: analyze_def example_frame_def evaluate_row_def example_toolkit_def
        valid_result_def invalid_result_def Let_def violations_def status_def ranking_def
        sort_values_def stable_argsort_def assign_ranks_def with_rank_def gallery_def iloc_def)
  have l: "length (table p) = 3"
    using t [THEN arg_cong, of length] by simp
  have n: "SMILES (table p ! 0) = Str ''A''" "Docking_Score (table p ! 0) = - 72 / 10"
    "SMILES (table p ! Suc 0) = Str ''B''" "Docking_Score (table p ! Suc 0) = - 65 / 10"
    using t [THEN arg_cong, of "\<lambda>xs. xs ! 0"] t [THEN arg_cong, of "\<lambda>xs. xs ! Suc 0"] l
    by simp_all
  from C10_gallery_captions [OF stable_argsort_contract a i]
  have "shown_images p =
           List.map_filter
             (\<lambda>(i, im). map_option
                (\<lambda>img. (img, SMILES (table p ! i), Docking_Score (table p ! i))) im)
             (enumerate 0 images)"
    by blast
  then have s: "shown_images p =
      [((250, 55 / 10, 2, 3), Str ''A'', - 72 / 10), ((180, 12 / 10, 1, 4), Str ''B'', - 65 / 10)]"
    unfolding im by (simp add: n)
  have "map SMILES (table p) = [Str ''A'', Str ''B'', Str ''C'']"
    using t [THEN arg_cong, of "map fst"] by (simp add: comp_def)
  then show ?thesis
    using stable_argsort_contract a s i r im by simp
qed

section \<open>Ranking a ranked partition again\<close>

lemma score_rank_assign_ranks:
  "map (\<lambda>r. (Docking_Score r, Final_Rank r)) (assign_ranks df) =
   zip (map Docking_Score df) (map Rank [1..<length df + 1])"
  unfolding assign_ranks_def zip_map_map by (simp add: split_def)

lemma ranking_all_pass:
  assumes "\<forall>r \<in> set df. Status r = ''Pass''"
  shows "ranking argsort df = assign_ranks (sort_values argsort df)"
proof -
  have "filter (\<lambda>r. Status r = ''Pass'') df = df"
    and "filter (\<lambda>r. Status r \<noteq> ''Pass'') df = []"
    using assms by (simp_all add: filter_id_conv filter_empty_conv)
  then show ?thesis
    by (simp add: ranking_eq)
qed

lemma sort_values_keys:
  assumes "argsort_contract argsort" and "sorted (map Docking_Score df)"
  shows "map Docking_Score (sort_values argsort df) = map Docking_Score df"
proof -
  let ?s = "sort_values argsort df"
  have "mset (map Docking_Score ?s) = mset (map Docking_Score df)"
    by (simp add: mset_sort_values [OF assms(1)])
  from properties_for_sort [OF this sorted_sort_values [OF assms(1)]]
  have "sort (map Docking_Score df) = map Docking_Score ?s" .
  moreover have "sort (map Docking_Score df) = map Docking_Score df"
    using assms(2) by (rule sorted_sort_id)
  ultimately show ?thesis
    by simp
qed

text \<open>
  Claim C9, as the code has it. Take a Pass partition that is already sorted ascending by
  docking score, so that its rows hold the ranks 1, 2, ..., K in this order, and apply the
  ranking step to it again, with any argsort that meets the contract of the library's sort.
  Then every position holds the same docking score and the same rank as before. When no two
  rows share a docking score, every record keeps its rank; rows with equal scores may
  exchange theirs.
\<close>

theorem C9_ranking_again:
  assumes "argsort_contract argsort"
    and "\<forall>r \<in> set df_pass. Status r = ''Pass''"
    and "sorted (map Docking_Score df_pass)"
  shows "map (\<lambda>r. (Docking_Score r, Final_Rank r)) (ranking argsort df_pass) =
           map (\<lambda>r. (Docking_Score r, Final_Rank r)) (assign_ranks df_pass) \<and>
         (distinct (map Docking_Score df_pass) \<longrightarrow>
            ranking argsort df_pass = assign_ranks df_pass)"
proof -
  let ?s = "sort_values argsort df_pass"
  have r: "ranking argsort df_pass = assign_ranks ?s"
    by (rule ranking_all_pass [OF assms(2)])
  have k: "map Docking_Score ?s = map Docking_Score df_pass"
    by (rule sort_values_keys [OF assms(1,3)])
  have l: "length ?s = length df_pass"
    by (rule length_sort_values [OF assms(1)])
  have 1: "map (\<lambda>r. (Docking_Score r, Final_Rank r)) (ranking argsort df_pass) =
           map (\<lambda>r. (Docking_Score r, Final_Rank r)) (assign_ranks df_pass)"
    unfolding r score_rank_assign_ranks k l ..
  have 2: "ranking argsort df_pass = assign_ranks df_pass"
    if "distinct (map Docking_Score df_pass)"
  proof -
    from that have "inj_on Docking_Score (set df_pass)"
      by (simp add: distinct_map)
    then have "inj_on Docking_Score (set ?s \<union> set df_pass)"
      by (simp add: set_sort_values [OF assms(1)])
    from inj_on_map_eq_map [OF this] k have "?s = df_pass"
      by blast
    then show ?thesis
      by (simp add: r)
  qed
  from 1 2 show ?thesis
    by blast
qed

text \<open>
  The Pass partition of the run on \<open>F\<close>, \<open>B\<close>, \<open>A\<close>, \<open>C\<close> has distinct scores: ranking
  it again leaves \<open>A\<close> at rank 1 and \<open>B\<close> at rank 2.
\<close>

theorem C9_ranking_again_witness:
  "argsort_contract stable_argsort \<and>
   map (\<lambda>r. (SMILES r, Docking_Score r, Status r, Final_Rank r))
     (filter (\<lambda>r. Status r = ''Pass'')
       (evaluated_records (analyze example_toolkit stable_argsort True
         (Some (example_frame [(''F'', - 9), (''B'', - 65 / 10), (''A'', - 72 / 10), (''C'', - 8)]))))) =
     [(Str ''A'', - 72 / 10, ''Pass'', Rank 1), (Str ''B'', - 65 / 10, ''Pass'', Rank 2)] \<and>
   map (\<lambda>r. (SMILES r, Docking_Score r, Status r, Final_Rank r))
     (ranking stable_argsort (map drop_rank
       (filter (\<lambda>r. Status r = ''Pass'')
         (evaluated_records (analyze example_toolkit stable_argsort True
           (Some (example_frame
             [(''F'', - 9), (''B'', - 65 / 10), (''A'', - 72 / 10), (''C'', - 8)]))))))) =
     [(Str ''A'', - 72 / 10, ''Pass'', Rank 1), (Str ''B'', - 65 / 10, ''Pass'', Rank 2)]"
proof -
  let ?df = "example_frame [(''F'', - 9), (''B'', - 65 / 10), (''A'', - 72 / 10), (''C'', - 8)]"
  define ranked where "ranked = filter (\<lambda>r. Status r = ''Pass'')
    (evaluated_records (analyze example_toolkit stable_argsort True (Some ?df)))"
  define df_pass where "df_pass = map drop_rank ranked"
  have f: "map (\<lambda>r. (SMILES r, Docking_Score r, Status r, Final_Rank r)) ranked =
     [(Str ''A'', - 72 / 10, ''Pass'', Rank 1), (Str ''B'', - 65 / 10, ''Pass'', Rank 2)]"
    unfolding ranked_def
    by (simp add: analyze_def example_frame_def evaluate_row_def example_toolkit_def
        valid_result_def invalid_result_def Let_def violations_def status_def ranking_def
        sort_values_def stable_argsort_def assign_ranks_def with_rank_def gallery_def iloc_def
        evaluated_records_def)
  have m: "map (\<lambda>r. (SMILES r, Docking_Score r, Status r)) df_pass =
     [(Str ''A'', - 72 / 10, ''Pass''), (Str ''B'', - 65 / 10, ''Pass'')]"
    using f [THEN arg_cong, of "map (\<lambda>(s, d, t, k). (s, d, t))"]
    by (simp add: df_pass_def comp_def)
  have st: "map Status df_pass = [''Pass'', ''Pass'']"
    and sc: "map Docking_Score df_pass = [- 72 / 10, - 65 / 10]"
    and sm: "map SMILES df_pass = [Str ''A'', Str ''B'']"
    using m [THEN arg_cong, of "map (\<lambda>(s, d, t). t)"]
      m [THEN arg_cong, of "map (\<lambda>(s, d, t). d)"]
      m [THEN arg_cong, of "map (\<lambda>(s, d, t). s)"]
    by (simp_all add: comp_def)
  have h2: "\<forall>r \<in> set df_pass. Status r = ''Pass''"
  proof
    fix r
    assume "r \<in> set df_pass"
    then have "Status r \<in> set (map Status df_pass)"
      by simp
    then show "Status r = ''Pass''"
      unfolding st by simp
  qed
  have h3: "sorted (map Docking_Score df_pass)"
    unfolding sc by simp
  have d: "distinct (map Docking_Score df_pass)"
    unfolding sc by simp
  from C9_ranking_again [OF stable_argsort_contract h2 h3] d
  have "ranking stable_argsort df_pass = assign_ranks df_pass"
    by blast
  moreover have "map (\<lambda>r. (SMILES r, Docking_Score r, Status r, Final_Rank r))
      (assign_ranks df_pass) =
     [(Str ''A'', - 72 / 10, ''Pass'', Rank 1), (Str ''B'', - 65 / 10, ''Pass'', Rank 2)]"
  proof -
    have l: "length df_pass = 2"
      using st [THEN arg_cong, of length] by simp
    then obtain a b where ab: "df_pass = [a, b]"
      by (cases df_pass; cases "tl df_pass") auto
    show ?thesis
      using m unfolding ab by (simp add: assign_ranks_def)
  qed
  ultimately have "map (\<lambda>r. (SMILES r, Docking_Score r, Status r, Final_Rank r))
      (ranking stable_argsort df_pass) =
     [(Str ''A'', - 72 / 10, ''Pass'', Rank 1), (Str ''B'', - 65 / 10, ''Pass'', Rank 2)]"
    by simp
  then show ?thesis
    using stable_argsort_contract f unfolding df_pass_def ranked_def by simp
qed

text \<open>
  The claim as worded promises the same rank for every record. In a run with numpy's
  generic quicksort on seventeen Pass rows that all have the score -7, the alkanes of one to
  seventeen carbon atoms, the partition step moves the tied rows: the first application ranks
  the alkane of fifteen carbon atoms second and the one of two carbon atoms fifteenth. The
  Pass partition is then sorted ascending, and ranking it again moves the tied rows once
  more: now the alkane of two carbon atoms is second. The lists give the number of carbon
  atoms and the rank of every row, from the top of the table.
\<close>

theorem C9_same_ranks_counterexample:
  "map (\<lambda>r. (carbons (SMILES r), Final_Rank r))
     (filter (\<lambda>r. Status r = ''Pass'')
       (evaluated_records (analyze alkane_toolkit aquicksort True
         (Some (example_frame tied_alkanes))))) =
     [(1, Rank 1), (15, Rank 2), (14, Rank 3), (13, Rank 4), (12, Rank 5),
      (11, Rank 6), (10, Rank 7), (16, Rank 8), (9, Rank 9), (7, Rank 10),
      (6, Rank 11), (5, Rank 12), (4, Rank 13), (3, Rank 14), (2, Rank 15),
      (8, Rank 16), (17, Rank 17)] \<and>
   sorted (map Docking_Score
     (filter (\<lambda>r. Status r = ''Pass'')
       (evaluated_records (analyze alkane_toolkit aquicksort True
         (Some (example_frame tied_alkanes)))))) \<and>
   map (\<lambda>r. (carbons (SMILES r), Final_Rank r))
     (ranking aquicksort (map drop_rank
       (filter (\<lambda>r. Status r = ''Pass'')
         (evaluated_records (analyze alkane_toolkit aquicksort True
           (Some (example_frame tied_alkanes))))))) =
     [(1, Rank 1), (2, Rank 2), (3, Rank 3), (4, Rank 4), (5, Rank 5), (6, Rank 6),
      (7, Rank 7), (8, Rank 8), (9, Rank 9), (10, Rank 10), (11, Rank 11),
      (12, Rank 12), (13, Rank 13), (14, Rank 14), (15, Rank 15), (16, Rank 16),
      (17, Rank 17)]"
  by (simp add: analyze_def example_frame_def tied_alkanes_def evaluate_row_def
      alkane_toolkit_def valid_result_def Let_def violations_def status_def ranking_def
      sort_values_def aquicksort_tied assign_ranks_def with_rank_def gallery_def
      iloc_def evaluated_records_def carbons_def drop_rank_def)

section \<open>What a stable sort would give\<close>

text \<open>
  With the argsort of a stable kind, rows with equal docking scores do keep their input order
  in the sorted Pass partition, and ranking a sorted partition again changes nothing. The
  script does not ask for a stable kind.
\<close>

lemma stable_sort_values_ties:
  "filter (\<lambda>r. Docking_Score r = s) (sort_values stable_argsort df) =
   filter (\<lambda>r. Docking_Score r = s) df"
proof -
  let ?ks = "map Docking_Score df"
  let ?idx = "sort_key (\<lambda>i. ?ks ! i) [0..<length df]"
  have "filter (\<lambda>r. Docking_Score r = s) (sort_values stable_argsort df) =
        map (\<lambda>i. df ! i) (filter (\<lambda>i. Docking_Score (df ! i) = s) ?idx)"
    by (simp add: sort_values_def stable_argsort_def filter_map comp_def)
  also have "filter (\<lambda>i. Docking_Score (df ! i) = s) ?idx = filter (\<lambda>i. ?ks ! i = s) ?idx"
    by (rule filter_cong [OF refl]) simp
  also have "\<dots> = filter (\<lambda>i. ?ks ! i = s) [0..<length df]"
    by (rule sort_key_stable)
  also have "\<dots> = filter (\<lambda>i. Docking_Score (df ! i) = s) [0..<length df]"
    by (rule filter_cong [OF refl]) simp
  also have "map (\<lambda>i. df ! i) \<dots> =
             filter (\<lambda>r. Docking_Score r = s) (map (\<lambda>i. df ! i) [0..<length df])"
    by (simp add: filter_map comp_def)
  also have "\<dots> = filter (\<lambda>r. Docking_Score r = s) df"
    by (simp add: map_nth)
  finally show ?thesis .
qed

lemma stable_ranking_ties:
  "filter (\<lambda>r. Docking_Score r = s)
     (map drop_rank (filter (\<lambda>r. Status r = ''Pass'') (ranking stable_argsort df))) =
   filter (\<lambda>r. Docking_Score r = s) (filter (\<lambda>r. Status r = ''Pass'') df)"
  by (simp only: filter_pass_ranking [OF stable_argsort_contract] drop_rank_assign_ranks
      stable_sort_values_ties)

lemma stable_sort_values_sorted:
  assumes "sorted (map Docking_Score df)"
  shows "sort_values stable_argsort df = df"
proof -
  have "sort_key Docking_Score df = sort_values stable_argsort df"
  proof (rule properties_for_sort_key)
    show "mset (sort_values stable_argsort df) = mset df"
      by (rule mset_sort_values [OF stable_argsort_contract])
    show "sorted (map Docking_Score (sort_values stable_argsort df))"
      by (rule sorted_sort_values [OF stable_argsort_contract])
    fix k
    show "filter (\<lambda>x. Docking_Score k = Docking_Score x) (sort_values stable_argsort df) =
          filter (\<lambda>x. Docking_Score k = Docking_Score x) df"
      using stable_sort_values_ties [of "Docking_Score k" df] by (simp add: eq_commute)
  qed
  moreover have "sort_key Docking_Score df = df"
    using assms by (rule sort_key_id_if_sorted)
  ultimately show ?thesis
    by simp
qed

lemma stable_ranking_again:
  assumes "\<forall>r \<in> set df_pass. Status r = ''Pass''" and "sorted (map Docking_Score df_pass)"
  shows "ranking stable_argsort df_pass = assign_ranks df_pass"
  by (simp add: ranking_all_pass [OF assms(1)] stable_sort_values_sorted [OF assms(2)])

section \<open>Rounded cells\<close>

text \<open>
  The thresholds are tested on the descriptor values as RDKit returns them; the \<^verbatim>\<open>MW\<close>
  and \<^verbatim>\<open>LogP\<close> cells hold these values rounded to two decimals. A molecule of weight
  500.004 and logP 4.999 therefore counts one violation and is labelled Good, while its row
  reads 500.0 and 5.0.
\<close>

lemma rounded_cells_example:
  "valid_result example_toolkit \<lparr>SMILES = Str ''M'', Docking_Score = 0\<rparr>
     (500004 / 1000, 4999 / 1000, 1, 1) =
   \<lparr>SMILES = Str ''M'', Docking_Score = 0, Status = ''Pass'', MW = Some 500, LogP = Some 5,
    HDonors = Some 1, HAcceptors = Some 1, Violations = Some 1, ADMET_Predict = Some ''Good''\<rparr>"
  by (simp add: valid_result_def example_toolkit_def Let_def violations_def status_def
      admet_prediction_def round2_def round_half_even_def)

end
